theory Spec2Isabelle
  imports Complex_Main "HOL-Library.Log_Nat"
begin

section \<open>The tide-pool server (\<open>src/server.js\<close>)\<close>

text \<open>
  The server keeps three tables in its store (\<open>state\<close>, \<open>clicks\<close>, \<open>logs\<close>), a
  process-local map \<open>pendingConfirm\<close>, and sends text messages to one operator through
  \<open>tg\<close>. The model passes this whole world explicitly: every handler takes a
  \<open>server\<close> and returns the updated one.

  Conventions of the model.
  \<^item> A JavaScript string is a list of code units; the model has the code units
    \<open>0..255\<close> (type \<open>char\<close>).
  \<^item> A JavaScript number that holds an integer is an \<open>int\<close>; \<open>NaN\<close> is \<open>None\<close>.
    The conversions between strings and numbers, \<open>parseInt\<close> and \<open>String\<close>, are those
    of binary64: a numeral is read as the nearest number (\<open>to_double\<close>), and a number
    is written as its shortest decimal, in exponent notation from \<open>10^21\<close> on. The
    arithmetic of the click handler (the sum \<open>count + 1\<close>, the products with \<open>0.5\<close>
    and \<open>0.75\<close>) is written without rounding, as the source computes it while
    magnitudes stay below \<open>2^51\<close>. The percentage \<open>(n/target)*100\<close> is modelled with
    the rounding of binary64 arithmetic (\<open>fl\<close>).
  \<^item> Time is an \<open>int\<close> of milliseconds. One handler run reads one clock value
    \<open>now\<close>, for \<open>Date.now()\<close> and for the store's \<open>NOW()\<close> alike.
  \<^item> A message sent with \<open>tg\<close> is a value of \<open>notification\<close>: one constructor per
    message template of the source, carrying the values the template interpolates.
  \<^item> Store queries succeed, except in the idle-stall detector, whose model takes
    the outcome of each query as an argument.
  \<^item> The operator's chat identity \<open>String(ADMIN_CHAT)\<close> is a parameter \<open>admin\<close> of the
    webhook handler. \<open>pendingConfirm\<close> is used under that one key only, and the model
    holds its own properties: the operator identity is a chat number, not a name
    that an object inherits (such as \<open>__proto__\<close>).
\<close>

subsection \<open>Strings and numbers of the host language\<close>

definition is_ws :: "char \<Rightarrow> bool" where
  "is_ws c = (c \<in> set [CHR 0x09, CHR 0x0A, CHR 0x0B, CHR 0x0C, CHR 0x0D, CHR 0x20, CHR 0xA0])"

definition trim :: "string \<Rightarrow> string" where
  "trim s = rev (dropWhile is_ws (rev (dropWhile is_ws s)))"

definition lower_char :: "char \<Rightarrow> char" where
  "lower_char c =
     (let n = (of_char c :: int) in
      if (65 \<le> n \<and> n \<le> 90) \<or> (192 \<le> n \<and> n \<le> 222 \<and> n \<noteq> 215)
      then char_of (n + 32) else c)"

definition toLowerCase :: "string \<Rightarrow> string" where
  "toLowerCase s = map lower_char s"

text \<open>\<open>String.prototype.split(' ')\<close>: the pieces between single spaces, never empty as a list.\<close>

fun split_sp :: "string \<Rightarrow> string list" where
  "split_sp [] = [[]]"
| "split_sp (c # cs) =
     (if c = CHR '' '' then [] # split_sp cs
      else (case split_sp cs of [] \<Rightarrow> [[c]] | p # ps \<Rightarrow> (c # p) # ps))"

fun join_sp :: "string list \<Rightarrow> string" where
  "join_sp [] = []"
| "join_sp [p] = p"
| "join_sp (p # q # ps) = p @ CHR '' '' # join_sp (q # ps)"

text \<open>The value of a digit character, for radices up to 36.\<close>

definition digit_val :: "char \<Rightarrow> int option" where
  "digit_val c =
     (let n = (of_char c :: int) in
      if 48 \<le> n \<and> n \<le> 57 then Some (n - 48)
      else if 97 \<le> n \<and> n \<le> 122 then Some (n - 87)
      else if 65 \<le> n \<and> n \<le> 90 then Some (n - 55)
      else None)"

definition is_digit :: "int \<Rightarrow> char \<Rightarrow> bool" where
  "is_digit r c = (case digit_val c of None \<Rightarrow> False | Some d \<Rightarrow> d < r)"

definition digits_value :: "int \<Rightarrow> string \<Rightarrow> int" where
  "digits_value r z = foldl (\<lambda>acc c. acc * r + (case digit_val c of None \<Rightarrow> 0 | Some d \<Rightarrow> d)) 0 z"

text \<open>
  A number of the host language is a binary64. \<open>round53 v\<close> is the integer with a
  significand of 53 bits nearest to the integer \<open>v\<close>, a tie going to the even
  significand: every integer up to \<open>2^53\<close> in magnitude is one, and a larger one keeps
  its leading 53 bits, rounded. \<open>to_double v\<close> is the number nearest to \<open>v\<close>: it is
  \<open>round53 v\<close>, unless that reaches \<open>2^1024\<close> in magnitude; the number is then
  \<open>Infinity\<close> or \<open>-Infinity\<close>, for which the model writes \<open>2^1024\<close> and \<open>-2^1024\<close>.
\<close>

definition round53 :: "int \<Rightarrow> int" where
  "round53 v =
     (if \<bar>v\<bar> \<le> 2 ^ 53 then v
      else let e = nat (bitlen \<bar>v\<bar> - 53);
               q = \<bar>v\<bar> div 2 ^ e;
               r = \<bar>v\<bar> mod 2 ^ e;
               h = 2 ^ (e - 1);
               m = (if r < h then q else if h < r then q + 1 else if even q then q else q + 1)
           in sgn v * (m * 2 ^ e))"

definition to_double :: "int \<Rightarrow> int" where
  "to_double v = (let w = round53 v in if 2 ^ 1024 \<le> \<bar>w\<bar> then sgn v * 2 ^ 1024 else w)"

text \<open>
  \<open>parseInt(s)\<close> with no radix: leading white space is skipped, then an optional sign,
  then an optional \<open>0x\<close>/\<open>0X\<close> that selects radix 16, then the longest run of digits;
  no digit at all gives \<open>NaN\<close>. The result is the number nearest to the integer read.
\<close>

definition parseInt :: "string \<Rightarrow> int option" where
  "parseInt s =
     (let s1 = dropWhile is_ws s;
          neg = (case s1 of c # _ \<Rightarrow> c = CHR ''-'' | [] \<Rightarrow> False);
          s2 = (case s1 of c # cs \<Rightarrow> if c = CHR ''+'' \<or> c = CHR ''-'' then cs else s1 | [] \<Rightarrow> s1);
          hex = (case s2 of a # b # _ \<Rightarrow> a = CHR ''0'' \<and> (b = CHR ''x'' \<or> b = CHR ''X'') | _ \<Rightarrow> False);
          r = (if hex then 16 else 10);
          s3 = (if hex then drop 2 s2 else s2);
          z = takeWhile (is_digit r) s3
      in if z = [] then None
         else Some (to_double ((if neg then - 1 else 1) * digits_value r z)))"

text \<open>\<open>ToString\<close> of a value read from the store: a missing row reads as \<open>null\<close>.\<close>

definition str_of :: "string option \<Rightarrow> string" where
  "str_of v = (case v of None \<Rightarrow> ''null'' | Some s \<Rightarrow> s)"

text \<open>\<open>parseInt(v) || d\<close>: \<open>NaN\<close> and \<open>0\<close> are falsy.\<close>

definition parseInt_or :: "string option \<Rightarrow> int \<Rightarrow> int" where
  "parseInt_or v d = (case parseInt (str_of v) of None \<Rightarrow> d | Some n \<Rightarrow> if n = 0 then d else n)"

text \<open>\<open>nat_digits n\<close> is the decimal numeral of a number \<open>n\<close> that is not negative.\<close>

function nat_digits :: "int \<Rightarrow> string" where
  "nat_digits n =
     (if n < 10 then [char_of (48 + n)]
      else nat_digits (n div 10) @ [char_of (48 + n mod 10)])"
  by pat_completeness auto
termination
  by (relation "measure nat") auto

declare nat_digits.simps [simp del]

text \<open>
  \<open>String(x)\<close> writes the shortest decimal that reads back as \<open>x\<close>. Below \<open>2^53\<close> that
  is the numeral of \<open>x\<close>. From there on, \<open>candidates x k\<close> are the decimals of \<open>k\<close>
  significant digits next to \<open>x\<close> (one below, one above) that round to \<open>x\<close>, the
  nearer one if both do, and \<open>shortest x\<close> takes the least \<open>k\<close> that has one. A decimal
  of at most 21 digits is written out, zeros and all; a longer one in exponent
  notation (\<open>1.5e+21\<close>); and \<open>Infinity\<close> by its name.
\<close>

definition candidates :: "int \<Rightarrow> nat \<Rightarrow> int list" where
  "candidates x k =
     (let p = length (nat_digits x) - k;
          lo = x div 10 ^ p * 10 ^ p;
          hi = lo + 10 ^ p;
          ok = filter (\<lambda>c. to_double c = x) [lo, hi]
      in case ok of
           [a, b] \<Rightarrow>
             (if x - a < b - x then [a]
              else if b - x < x - a then [b]
              else if even (a div 10 ^ p) then [a] else [b])
         | _ \<Rightarrow> ok)"

definition shortest :: "int \<Rightarrow> int" where
  "shortest x =
     (case concat (map (candidates x) [1..<Suc (length (nat_digits x))]) of
        [] \<Rightarrow> x
      | c # _ \<Rightarrow> c)"

definition exp_form :: "int \<Rightarrow> string" where
  "exp_form c =
     (let ds = nat_digits c;
          sig = rev (dropWhile (\<lambda>d. d = CHR ''0'') (rev ds))
      in (case sig of
            [] \<Rightarrow> []
          | d # rest \<Rightarrow> if rest = [] then [d] else d # CHR ''.'' # rest)
         @ ''e+'' @ nat_digits (int (length ds) - 1))"

definition pos_string :: "int \<Rightarrow> string" where
  "pos_string x =
     (if x < 2 ^ 53 then nat_digits x
      else if 2 ^ 1024 \<le> x then ''Infinity''
      else let c = shortest x in if c < 10 ^ 21 then nat_digits c else exp_form c)"

text \<open>\<open>String(n)\<close> for an integer \<open>n\<close>, held as a number.\<close>

definition String_of_int :: "int \<Rightarrow> string" where
  "String_of_int n =
     (let x = to_double n in if x < 0 then CHR ''-'' # pos_string (- x) else pos_string x)"

text \<open>A truthy string option: neither \<open>null\<close> nor the empty string.\<close>

definition truthy :: "string option \<Rightarrow> bool" where
  "truthy v = (case v of None \<Rightarrow> False | Some s \<Rightarrow> s \<noteq> [])"

subsection \<open>The store and the outbox\<close>

text \<open>
  The exceptions of the model: \<open>StoreError i\<close> is thrown by store query \<open>i\<close> of a callback
  when it fails, \<open>TypeError\<close> by the call of a method that the value does not have.
\<close>

datatype exn = StoreError nat | TypeError

text \<open>
  The messages the server sends. \<open>TideUpdate n target pct half three_quarters ten_left\<close>
  is the progress message: the three flags tell whether the halfway, the
  three-quarters and the 10-remaining paragraph are appended. \<open>BlessedArrived n\<close> and
  \<open>Unleashed n\<close> are the blessed and the launch message for click \<open>n\<close>.
  \<open>TideStalling count target\<close> is the stall message. The others answer operator
  commands; a field read from the store is a \<open>string option\<close>, \<open>None\<close> for a missing row.
  \<open>ErrorNote e\<close> is \<open>Error: \<close> followed by the message of the exception \<open>e\<close>.
  \<open>StatusNote\<close> lists \<open>count\<close>, \<open>target\<close>, \<open>launched\<close>, \<open>locked\<close>, \<open>ca\<close>, \<open>decree\<close>,
  \<open>tide_warning\<close> and \<open>blessed\<close>; \<open>VelocityNote\<close> carries the click counts of the last
  hour and of the last six, \<open>TodayNote\<close> that of the last day; \<open>LogsNote\<close> carries the
  log rows shown.
\<close>

datatype notification =
    ErrorNote exn
  | TideUpdate int int int bool bool bool
  | BlessedArrived int
  | Unleashed int
  | ConfirmExpired
  | AllAlive "string option" "string option" bool
  | CountNote "string option" "string option"
  | StatusNote "string option list"
  | UsageSetCA
  | CALive string
  | UsageDecree
  | DecreeLive string
  | DecreeCleared
  | UsageBless
  | BlessMarked int
  | SiteLocked string
  | SiteUnlocked
  | UsageSetTarget
  | TargetUpdated int
  | TodayNote nat "string option" "string option"
  | VelocityNote nat nat
  | WarningSet string
  | WarningCleared
  | NoLogs
  | LogsNote "(string \<times> string \<times> int) list"
  | ResetWarning
  | HelpNote
  | UnknownCmd string
  | ResetComplete
  | TideStalling "string option" "string option"

record server =
  state_tbl :: "string \<rightharpoonup> string"
  clicks_tbl :: "(string \<times> int) list"
  logs_tbl :: "(string \<times> string \<times> int) list"
  pendingConfirm :: "string \<rightharpoonup> (string \<times> int)"
  sent :: "notification list"

definition defaults :: "(string \<times> string) list" where
  "defaults =
     [(''count'', ''0''), (''target'', ''100''), (''ca'', ''''), (''launched'', ''false''),
      (''locked'', ''false''),
      (''lock_msg'', ''The tide is retreating. The depths are recalibrating.''),
      (''decree'', ''''), (''tide_warning'', ''''), (''blessed'', '''')]"

text \<open>\<open>INSERT ... ON CONFLICT (key) DO NOTHING\<close>\<close>

definition insert_default :: "string \<times> string \<Rightarrow> server \<Rightarrow> server" where
  "insert_default kv s =
     (case state_tbl s (fst kv) of
        None \<Rightarrow> s\<lparr>state_tbl := (state_tbl s)(fst kv \<mapsto> snd kv)\<rparr>
      | Some _ \<Rightarrow> s)"

definition initDB :: "server \<Rightarrow> server" where
  "initDB s = fold insert_default defaults s"

definition getState :: "server \<Rightarrow> string \<Rightarrow> string option" where
  "getState s key = state_tbl s key"

text \<open>\<open>INSERT ... ON CONFLICT (key) DO UPDATE\<close>\<close>

definition setState :: "string \<Rightarrow> string \<Rightarrow> server \<Rightarrow> server" where
  "setState key v s = s\<lparr>state_tbl := (state_tbl s)(key \<mapsto> v)\<rparr>"

definition getAllState :: "server \<Rightarrow> (string \<rightharpoonup> string)" where
  "getAllState s = state_tbl s"

definition addLog :: "int \<Rightarrow> string \<Rightarrow> string \<Rightarrow> server \<Rightarrow> server" where
  "addLog now event detail s = s\<lparr>logs_tbl := logs_tbl s @ [(event, detail, now)]\<rparr>"

definition tg :: "notification \<Rightarrow> server \<Rightarrow> server" where
  "tg m s = s\<lparr>sent := sent s @ [m]\<rparr>"

subsection \<open>Binary64 rounding\<close>

text \<open>
  \<open>ilog2 x\<close> is \<open>\<lfloor>log\<^sub>2 x\<rfloor>\<close> for a positive rational \<open>x = p/q\<close>: the bit lengths of \<open>p\<close>
  and \<open>q\<close> fix it up to one, and a comparison decides.
\<close>

definition ilog2 :: "rat \<Rightarrow> int" where
  "ilog2 x =
     (let (p, q) = quotient_of x;
          d = bitlen p - bitlen q
      in if power_int 2 d \<le> x then d else d - 1)"

text \<open>
  \<open>fl x\<close> is the binary64 number nearest to \<open>x\<close>, ties to the even significand
  (53 bits), for \<open>x\<close> in the normal range.
\<close>

definition fl :: "rat \<Rightarrow> rat" where
  "fl x =
     (if x = 0 then 0
      else let e = ilog2 \<bar>x\<bar> - 52;
               sc = \<bar>x\<bar> / power_int 2 e;
               f = \<lfloor>sc\<rfloor>;
               r = sc - of_int f;
               m = (if r < 1 / 2 then f
                    else if 1 / 2 < r then f + 1
                    else if even f then f else f + 1)
           in sgn x * of_int m * power_int 2 e)"

text \<open>\<open>Math.round\<close>: the nearest integer, a tie going up.\<close>

definition Math_round :: "rat \<Rightarrow> int" where
  "Math_round x = \<lfloor>x + 1 / 2\<rfloor>"

text \<open>\<open>Math.round((n/target)*100)\<close>\<close>

definition pct :: "int \<Rightarrow> int \<Rightarrow> int" where
  "pct n target = Math_round (fl (fl (of_int n / of_int target) * 100))"

subsection \<open>\<open>POST /click\<close>\<close>

datatype response =
    ClickOk int int bool
  | AlreadyClicked
  | Locked "string option"

definition status_code :: "response \<Rightarrow> nat" where
  "status_code r = (case r of ClickOk _ _ _ \<Rightarrow> 200 | AlreadyClicked \<Rightarrow> 429 | Locked _ \<Rightarrow> 423)"

definition hours :: "int \<Rightarrow> int" where
  "hours h = h * 60 * 60 * 1000"

text \<open>The rows of \<open>clicks\<close> with \<open>clicked_at > NOW() - INTERVAL d\<close>.\<close>

definition clicks_since :: "server \<Rightarrow> int \<Rightarrow> int \<Rightarrow> (string \<times> int) list" where
  "clicks_since s now d = filter (\<lambda>row. now - d < snd row) (clicks_tbl s)"

definition hasIPClicked :: "server \<Rightarrow> int \<Rightarrow> string \<Rightarrow> bool" where
  "hasIPClicked s now ip =
     (0 < length (filter (\<lambda>row. fst row = ip) (clicks_since s now (hours 24))))"

definition recordIPClick :: "int \<Rightarrow> string \<Rightarrow> server \<Rightarrow> server" where
  "recordIPClick now ip s = s\<lparr>clicks_tbl := clicks_tbl s @ [(ip, now)]\<rparr>"

text \<open>The progress message of lines 131--138, for a post-increment value that is a multiple of 10.\<close>

definition progress_msg :: "int \<Rightarrow> int \<Rightarrow> notification" where
  "progress_msg n target =
     TideUpdate n target (pct n target)
       (n = \<lfloor>(of_int target :: rat) * (1 / 2)\<rfloor>)
       (n = \<lfloor>(of_int target :: rat) * (3 / 4)\<rfloor>)
       (n = target - 10)"

text \<open>
  The handler body, lines 117--152, run without interruption.
\<close>

definition click_handler :: "int \<Rightarrow> string \<Rightarrow> server \<Rightarrow> response \<times> server" where
  "click_handler now ip s =
     (if hasIPClicked s now ip then (AlreadyClicked, s)
      else if getState s ''locked'' = Some ''true'' then (Locked (getState s ''lock_msg''), s)
      else
        let count = parseInt_or (getState s ''count'') 0;
            target = parseInt_or (getState s ''target'') 100;
            n = count + 1;
            s1 = setState ''count'' (String_of_int n) s;
            s2 = recordIPClick now ip s1;
            s3 = addLog now ''click'' (''IP:'' @ ip @ '' Count:'' @ String_of_int n) s2;
            s4 = (if n mod 10 = 0 then tg (progress_msg n target) s3 else s3);
            blessed = getState s4 ''blessed'';
            s5 = (if truthy blessed \<and> parseInt (str_of blessed) = Some n
                  then tg (BlessedArrived n) s4 else s4);
            s6 = (if target \<le> n
                  then (if getState s5 ''launched'' \<noteq> Some ''true''
                        then tg (Unleashed n) (setState ''launched'' ''true'' s5)
                        else s5)
                  else s5)
        in (ClickOk n target (target \<le> n), s6))"

text \<open>
  The route with its rate-limiting middleware (\<open>clickLimiter\<close>, a library): whether the
  limiter admits the request is an argument; a request it refuses gets 429 from its
  handler and never reaches the body.
\<close>

definition post_click :: "bool \<Rightarrow> int \<Rightarrow> string \<Rightarrow> server \<Rightarrow> response \<times> server" where
  "post_click admitted now ip s =
     (if admitted then click_handler now ip s else (AlreadyClicked, s))"

subsection \<open>\<open>POST /click\<close>, one store round trip at a time\<close>

text \<open>
  The handler is an \<open>async\<close> function: it gives up control at every \<open>await\<close>, and
  other requests run in between. A task is one request in flight: where it stands in
  the handler (\<open>t_pc\<close>) and its local variables. \<open>click_step\<close> runs a task from one
  \<open>await\<close> to the next: the awaited query or message, then the synchronous code up to
  the next \<open>await\<close>.
\<close>

datatype click_pc =
    AtCheckIP | AtReadLocked | AtReadLockMsg | AtReadCount | AtReadTarget | AtWriteCount
  | AtRecordClick | AtLogClick | AtProgress | AtReadBlessed | AtBlessNote
  | AtReadLaunched | AtWriteLaunched | AtLaunchNote | Finished response

record task =
  t_pc :: click_pc
  t_ip :: string
  t_count :: int
  t_target :: int
  t_n :: int

definition new_task :: "string \<Rightarrow> task" where
  "new_task ip = \<lparr>t_pc = AtCheckIP, t_ip = ip, t_count = 0, t_target = 0, t_n = 0\<rparr>"

text \<open>Line 145 onwards, once the milestone messages are out.\<close>

definition launch_check :: "task \<Rightarrow> click_pc" where
  "launch_check t =
     (if t_target t \<le> t_n t then AtReadLaunched
      else Finished (ClickOk (t_n t) (t_target t) (t_target t \<le> t_n t)))"

definition click_step :: "int \<Rightarrow> task \<Rightarrow> server \<Rightarrow> task \<times> server" where
  "click_step now t s =
     (case t_pc t of
        AtCheckIP \<Rightarrow>
          (if hasIPClicked s now (t_ip t) then (t\<lparr>t_pc := Finished AlreadyClicked\<rparr>, s)
           else (t\<lparr>t_pc := AtReadLocked\<rparr>, s))
      | AtReadLocked \<Rightarrow>
          (if getState s ''locked'' = Some ''true'' then (t\<lparr>t_pc := AtReadLockMsg\<rparr>, s)
           else (t\<lparr>t_pc := AtReadCount\<rparr>, s))
      | AtReadLockMsg \<Rightarrow> (t\<lparr>t_pc := Finished (Locked (getState s ''lock_msg''))\<rparr>, s)
      | AtReadCount \<Rightarrow>
          (t\<lparr>t_pc := AtReadTarget, t_count := parseInt_or (getState s ''count'') 0\<rparr>, s)
      | AtReadTarget \<Rightarrow>
          (t\<lparr>t_pc := AtWriteCount, t_target := parseInt_or (getState s ''target'') 100,
             t_n := t_count t + 1\<rparr>, s)
      | AtWriteCount \<Rightarrow> (t\<lparr>t_pc := AtRecordClick\<rparr>, setState ''count'' (String_of_int (t_n t)) s)
      | AtRecordClick \<Rightarrow> (t\<lparr>t_pc := AtLogClick\<rparr>, recordIPClick now (t_ip t) s)
      | AtLogClick \<Rightarrow>
          (t\<lparr>t_pc := (if t_n t mod 10 = 0 then AtProgress else AtReadBlessed)\<rparr>,
           addLog now ''click'' (''IP:'' @ t_ip t @ '' Count:'' @ String_of_int (t_n t)) s)
      | AtProgress \<Rightarrow> (t\<lparr>t_pc := AtReadBlessed\<rparr>, tg (progress_msg (t_n t) (t_target t)) s)
      | AtReadBlessed \<Rightarrow>
          (let blessed = getState s ''blessed'' in
           if truthy blessed \<and> parseInt (str_of blessed) = Some (t_n t)
           then (t\<lparr>t_pc := AtBlessNote\<rparr>, s)
           else (t\<lparr>t_pc := launch_check t\<rparr>, s))
      | AtBlessNote \<Rightarrow> (t\<lparr>t_pc := launch_check t\<rparr>, tg (BlessedArrived (t_n t)) s)
      | AtReadLaunched \<Rightarrow>
          (if getState s ''launched'' \<noteq> Some ''true'' then (t\<lparr>t_pc := AtWriteLaunched\<rparr>, s)
           else (t\<lparr>t_pc := Finished (ClickOk (t_n t) (t_target t) (t_target t \<le> t_n t))\<rparr>, s))
      | AtWriteLaunched \<Rightarrow> (t\<lparr>t_pc := AtLaunchNote\<rparr>, setState ''launched'' ''true'' s)
      | AtLaunchNote \<Rightarrow>
          (t\<lparr>t_pc := Finished (ClickOk (t_n t) (t_target t) (t_target t \<le> t_n t))\<rparr>,
           tg (Unleashed (t_n t)) s)
      | Finished r \<Rightarrow> (t, s))"

text \<open>
  A schedule names, step by step, the task that runs next and the clock it reads.
  The tasks share the server and nothing else.
\<close>

fun run_sched :: "(nat \<times> int) list \<Rightarrow> task list \<times> server \<Rightarrow> task list \<times> server" where
  "run_sched [] c = c"
| "run_sched ((i, now) # sch) (ts, s) =
     (if i < length ts
      then (case click_step now (ts ! i) s of (t', s') \<Rightarrow> run_sched sch (ts[i := t'], s'))
      else run_sched sch (ts, s))"

text \<open>One task alone, run for \<open>k\<close> steps.\<close>

fun run_task :: "nat \<Rightarrow> int \<Rightarrow> task \<times> server \<Rightarrow> task \<times> server" where
  "run_task 0 now c = c"
| "run_task (Suc k) now (t, s) = run_task k now (click_step now t s)"

definition responses :: "task list \<Rightarrow> response option list" where
  "responses ts = map (\<lambda>t. case t_pc t of Finished r \<Rightarrow> Some r | _ \<Rightarrow> None) ts"

definition is_launch_note :: "notification \<Rightarrow> bool" where
  "is_launch_note m = (case m of Unleashed _ \<Rightarrow> True | _ \<Rightarrow> False)"

subsection \<open>\<open>POST /webhook\<close>\<close>

text \<open>\<open>UPDATE state SET value = v WHERE key IN ks\<close>: only rows that exist change.\<close>

definition update_where :: "string list \<Rightarrow> string \<Rightarrow> server \<Rightarrow> server" where
  "update_where ks v s =
     s\<lparr>state_tbl := (\<lambda>k. if k \<in> set ks \<and> state_tbl s k \<noteq> None then Some v else state_tbl s k)\<rparr>"

definition delete_clicks :: "server \<Rightarrow> server" where
  "delete_clicks s = s\<lparr>clicks_tbl := []\<rparr>"

definition handleConfirmed :: "int \<Rightarrow> string \<Rightarrow> server \<Rightarrow> server" where
  "handleConfirmed now command s =
     (if command = ''reset'' then
        (let s1 = update_where [''count''] ''0'' s;
             s2 = update_where [''ca'', ''blessed'', ''decree'', ''tide_warning''] [] s1;
             s3 = update_where [''launched''] ''false'' s2;
             s4 = delete_clicks s3;
             s5 = addLog now ''reset'' ''Full reset'' s4
         in tg ResetComplete s5)
      else s)"

definition default_lock_msg :: string where
  "default_lock_msg = ''The tide is retreating. The depths are recalibrating.''"

definition default_warning :: string where
  "default_warning = ''The tide pool closes soon. The window is narrowing.''"

text \<open>\<open>!n || n < 1\<close> for \<open>n = parseInt(arg)\<close>\<close>

definition bad_number :: "int option \<Rightarrow> bool" where
  "bad_number v = (case v of None \<Rightarrow> True | Some n \<Rightarrow> n = 0 \<or> n < 1)"

text \<open>
  The command dispatch, lines 185--279. \<open>cmd_of\<close> is \<open>parts[0].toLowerCase()\<close> and
  \<open>arg_of\<close> is \<open>parts.slice(1).join(' ').trim()\<close>, for \<open>parts = text.split(' ')\<close>.
  \<open>ORDER BY created_at DESC LIMIT 20\<close> is a stable sort of the log on the time stamp,
  newest first.
\<close>

definition cmd_of :: "string \<Rightarrow> string" where
  "cmd_of text = toLowerCase (case split_sp text of [] \<Rightarrow> [] | p # _ \<Rightarrow> p)"

definition arg_of :: "string \<Rightarrow> string" where
  "arg_of text = trim (join_sp (drop 1 (split_sp text)))"

definition dispatch :: "int \<Rightarrow> string \<Rightarrow> string \<Rightarrow> server \<Rightarrow> server" where
  "dispatch now chatId text s =
     (let cmd = cmd_of text;
          arg = arg_of text
      in
      if cmd = ''/ping'' then
        tg (AllAlive (getState s ''count'') (getState s ''target'') (truthy (getState s ''ca''))) s
      else if cmd = ''/count'' then
        tg (CountNote (getState s ''count'') (getState s ''target'')) s
      else if cmd = ''/status'' then
        (let st = getAllState s
         in tg (StatusNote (map st [''count'', ''target'', ''launched'', ''locked'', ''ca'',
                                     ''decree'', ''tide_warning'', ''blessed''])) s)
      else if cmd = ''/setca'' then
        (if arg = [] \<or> length arg < 10 then tg UsageSetCA s
         else tg (CALive arg) (addLog now ''set_ca'' arg (setState ''ca'' arg s)))
      else if cmd = ''/decree'' then
        (if arg = [] then tg UsageDecree s
         else tg (DecreeLive arg) (addLog now ''decree'' arg (setState ''decree'' arg s)))
      else if cmd = ''/cleardecree'' then
        tg DecreeCleared (setState ''decree'' [] s)
      else if cmd = ''/bless'' then
        (let n = parseInt arg in
         if bad_number n then tg UsageBless s
         else tg (BlessMarked (the n)) (setState ''blessed'' (String_of_int (the n)) s))
      else if cmd = ''/lockdown'' then
        (let m = (if arg = [] then default_lock_msg else arg)
         in tg (SiteLocked m)
              (addLog now ''lockdown'' m (setState ''lock_msg'' m (setState ''locked'' ''true'' s))))
      else if cmd = ''/unlock'' then
        tg SiteUnlocked (addLog now ''unlock'' [] (setState ''locked'' ''false'' s))
      else if cmd = ''/settarget'' then
        (let n = parseInt arg in
         if bad_number n then tg UsageSetTarget s
         else tg (TargetUpdated (the n))
                (addLog now ''set_target'' (String_of_int (the n))
                   (setState ''target'' (String_of_int (the n)) s)))
      else if cmd = ''/today'' then
        tg (TodayNote (length (clicks_since s now (hours 24)))
              (getState s ''count'') (getState s ''target'')) s
      else if cmd = ''/velocity'' then
        tg (VelocityNote (length (clicks_since s now (hours 1)))
              (length (clicks_since s now (hours 6)))) s
      else if cmd = ''/tidewarning'' then
        (let m = (if arg = [] then default_warning else arg)
         in tg (WarningSet m) (addLog now ''tide_warning'' m (setState ''tide_warning'' m s)))
      else if cmd = ''/cleartidewarning'' then
        tg WarningCleared (setState ''tide_warning'' [] s)
      else if cmd = ''/logs'' then
        (let rows = take 20 (sort_key (\<lambda>r. - snd (snd r)) (logs_tbl s))
         in if rows = [] then tg NoLogs s else tg (LogsNote rows) s)
      else if cmd = ''/reset'' then
        tg ResetWarning
          (s\<lparr>pendingConfirm := (pendingConfirm s)(chatId \<mapsto> (''reset'', now + 60000))\<rparr>)
      else if cmd = ''/help'' then tg HelpNote s
      else tg (UnknownCmd cmd) s)"

text \<open>
  The \<open>text\<close> field of an inbound message, as line 174 sees it: \<open>Str raw\<close> is a string,
  \<open>NoText\<close> a field that is missing or holds another falsy value (\<open>msg.text || ''\<close> is
  then the empty string), and \<open>NotStr\<close> a truthy value that is not a string (a number, \<open>true\<close>,
  an array, an object), which has no \<open>trim\<close>.
\<close>

datatype text_field = Str string | NoText | NotStr

text \<open>
  The handler, lines 168--284. A request body is \<open>None\<close> when it has no \<open>message\<close>, and
  else the pair of \<open>String(msg.chat?.id)\<close> and \<open>msg.text\<close>. \<open>admin\<close> is
  \<open>String(ADMIN_CHAT)\<close>, read from the environment. \<open>webhook_try\<close> is the \<open>try\<close> block:
  line 174 calls \<open>trim\<close> before line 175 looks at the sender, and throws when the text has
  none. \<open>post_webhook\<close> is the handler with its \<open>catch\<close>, which sends the error message
  to the operator. The pending confirmations are the own properties of the object of
  line 166, held under the operator's chat identity.
\<close>

definition webhook_try :: "string \<Rightarrow> int \<Rightarrow> (string \<times> text_field) option \<Rightarrow> server \<Rightarrow> exn + server" where
  "webhook_try admin now body s =
     (case body of
        None \<Rightarrow> Inr s
      | Some (chatId, field) \<Rightarrow>
          (case field of
             NotStr \<Rightarrow> Inl TypeError
           | _ \<Rightarrow>
               (let text = trim (case field of Str raw \<Rightarrow> raw | _ \<Rightarrow> []) in
                if chatId \<noteq> admin then Inr s
                else
                  (let s1 = addLog now ''tg_command'' (take 120 text) s in
                   case (if text = ''CONFIRM'' then pendingConfirm s1 chatId else None) of
                     Some (command, expiresAt) \<Rightarrow>
                       (let s2 = s1\<lparr>pendingConfirm := (pendingConfirm s1)(chatId := None)\<rparr>
                        in if expiresAt < now then Inr (tg ConfirmExpired s2)
                           else Inr (handleConfirmed now command s2))
                   | None \<Rightarrow> Inr (dispatch now chatId text s1)))))"

definition post_webhook :: "string \<Rightarrow> int \<Rightarrow> (string \<times> text_field) option \<Rightarrow> server \<Rightarrow> server" where
  "post_webhook admin now body s =
     (case webhook_try admin now body s of
        Inl e \<Rightarrow> tg (ErrorNote e) s
      | Inr s' \<Rightarrow> s')"

subsection \<open>The idle-stall detector\<close>

text \<open>
  The timer callback of lines 310--319. Its store queries are numbered in the order the
  callback issues them (\<open>launched\<close>, the count of recent clicks, \<open>count\<close>, \<open>target\<close>);
  \<open>ok i\<close> tells whether query \<open>i\<close> succeeds. A query that fails throws. \<open>idle_body\<close> is
  the \<open>try\<close> block; \<open>idle_tick\<close> is the callback with its empty \<open>catch\<close>, and returns
  the exception that leaves the callback, if any, with the server.
\<close>

definition idle_body :: "(nat \<Rightarrow> bool) \<Rightarrow> int \<Rightarrow> server \<Rightarrow> exn + server" where
  "idle_body ok now s =
     (if \<not> ok 0 then Inl (StoreError 0)
      else if getState s ''launched'' = Some ''true'' then Inr s
      else if \<not> ok 1 then Inl (StoreError 1)
      else if int (length (clicks_since s now (hours 3))) = 0 then
        (if \<not> ok 2 then Inl (StoreError 2)
         else if \<not> ok 3 then Inl (StoreError 3)
         else Inr (tg (TideStalling (getState s ''count'') (getState s ''target'')) s))
      else Inr s)"

definition idle_tick :: "(nat \<Rightarrow> bool) \<Rightarrow> int \<Rightarrow> server \<Rightarrow> exn option \<times> server" where
  "idle_tick ok now s =
     (case idle_body ok now s of
        Inl e \<Rightarrow> (None, s)
      | Inr s' \<Rightarrow> (None, s'))"

subsection \<open>A server with empty tables\<close>

definition fresh :: server where
  "fresh = \<lparr>state_tbl = Map.empty, clicks_tbl = [], logs_tbl = [], pendingConfirm = Map.empty, sent = []\<rparr>"

text \<open>The state fields of the default set are all present: the store after \<open>initDB\<close>.\<close>

definition bootstrapped :: "server \<Rightarrow> bool" where
  "bootstrapped s = list_all (\<lambda>k. state_tbl s k \<noteq> None) (map fst defaults)"

text \<open>A bootstrapped server, locked, on which \<open>10.0.0.1\<close> clicked at time 0.\<close>

definition clicked_and_locked :: server where
  "clicked_and_locked = recordIPClick 0 ''10.0.0.1'' (setState ''locked'' ''true'' (initDB fresh))"

text \<open>
  Operator traffic: webhook messages \<open>(time, chat, text)\<close> whose text is a string,
  handled one after the other.
\<close>

definition webhook_seq :: "string \<Rightarrow> (int \<times> string \<times> string) list \<Rightarrow> server \<Rightarrow> server" where
  "webhook_seq admin msgs s =
     fold (\<lambda>m. post_webhook admin (fst m) (Some (fst (snd m), Str (snd (snd m))))) msgs s"

text \<open>A bootstrapped server after one click of \<open>10.0.0.1\<close> at time 0.\<close>

definition one_click :: server where
  "one_click = recordIPClick 0 ''10.0.0.1'' (setState ''count'' ''1'' (initDB fresh))"

text \<open>A bootstrapped server with \<open>count\<close> 229 and \<open>target\<close> 400.\<close>

definition at_229_of_400 :: server where
  "at_229_of_400 = setState ''count'' ''229'' (setState ''target'' ''400'' (initDB fresh))"

text \<open>A bootstrapped server with \<open>count\<close> 49, \<open>target\<close> 100 and \<open>blessed\<close> 50.\<close>

definition at_49_blessed_50 :: server where
  "at_49_blessed_50 = setState ''blessed'' ''50'' (setState ''count'' ''49'' (initDB fresh))"

text \<open>The server right after its first start.\<close>

definition booted :: server where
  "booted = initDB fresh"

text \<open>
  Two requests in flight, from two identities, and two schedules for them. In
  \<open>reads_first\<close> each task runs its four reads (the two guards, \<open>count\<close>, \<open>target\<close>)
  before either writes. In \<open>crossing\<close> each task runs up to its read of \<open>launched\<close>
  before either sets it.
\<close>

definition two_tasks :: "task list" where
  "two_tasks = [new_task ''10.0.0.1'', new_task ''10.0.0.2'']"

definition reads_first :: "(nat \<times> int) list" where
  "reads_first = replicate 4 (0, 0) @ replicate 4 (1, 0) @ replicate 4 (0, 0) @ replicate 4 (1, 0)"

definition crossing :: "(nat \<times> int) list" where
  "crossing = replicate 10 (0, 0) @ replicate 9 (1, 0) @ replicate 2 (0, 0) @ replicate 2 (1, 0)"

definition at_99_of_100 :: server where
  "at_99_of_100 = setState ''count'' ''99'' booted"

text \<open>
  Clicks handled one after the other, each to its end before the next begins: the
  requests \<open>(time, identity)\<close>, the responses in order, and the server at the end.
\<close>

fun click_seq :: "(int \<times> string) list \<Rightarrow> server \<Rightarrow> response list \<times> server" where
  "click_seq [] s = ([], s)"
| "click_seq ((now, ip) # reqs) s =
     (case post_click True now ip s of
        (r, s') \<Rightarrow> (case click_seq reqs s' of (rs, s'') \<Rightarrow> (r # rs, s'')))"

definition is_ok :: "response \<Rightarrow> bool" where
  "is_ok r = (case r of ClickOk _ _ _ \<Rightarrow> True | _ \<Rightarrow> False)"

definition launch_notes :: "server \<Rightarrow> nat" where
  "launch_notes s = length (filter is_launch_note (sent s))"

section \<open>Properties\<close>

subsection \<open>Numerals read back\<close>

text \<open>
  Below \<open>2^53\<close> in magnitude, \<open>String(n)\<close> is the decimal numeral of \<open>n\<close> and
  \<open>parseInt(String(n))\<close> is \<open>n\<close>: what the server writes as a number it reads back.
\<close>

lemma to_double_small: "\<bar>v\<bar> \<le> 2 ^ 53 \<Longrightarrow> to_double v = v"
  by (simp add: to_double_def Let_def round53_def)

lemma is_digit_10: "is_digit 10 c \<longleftrightarrow> 48 \<le> (of_char c :: int) \<and> (of_char c :: int) \<le> 57"
  by (auto simp: is_digit_def digit_val_def Let_def)

lemma digit_val_dec: "is_digit 10 c \<Longrightarrow> digit_val c = Some (of_char c - 48)"
  by (auto simp: is_digit_10 digit_val_def Let_def)

lemma dec_char: "0 \<le> k \<Longrightarrow> k < 10 \<Longrightarrow> (of_char (char_of (48 + k :: int)) :: int) = 48 + k"
  by simp

lemma is_digit_dec_char: "0 \<le> k \<Longrightarrow> k < 10 \<Longrightarrow> is_digit 10 (char_of (48 + k :: int))"
  by (simp add: is_digit_10)

lemma digit_not_special:
  assumes "is_digit 10 c"
  shows "\<not> is_ws c" "c \<noteq> CHR ''+''" "c \<noteq> CHR ''-''" "c \<noteq> CHR ''x''" "c \<noteq> CHR ''X''"
  using assms by (auto simp: is_digit_10 is_ws_def)

lemma nat_digits_all: "0 \<le> n \<Longrightarrow> list_all (is_digit 10) (nat_digits n)"
proof (induction n rule: nat_digits.induct)
  case (1 n)
  show ?case
  proof (cases "n < 10")
    case True
    then show ?thesis using "1.prems" by (subst nat_digits.simps) (simp add: is_digit_dec_char)
  next
    case False
    then have "list_all (is_digit 10) (nat_digits (n div 10))"
      using 1 by simp
    then show ?thesis
      using False by (subst nat_digits.simps) (simp add: is_digit_dec_char)
  qed
qed

lemma nat_digits_nonempty: "nat_digits n \<noteq> []"
  by (subst nat_digits.simps) simp

lemma digits_value_snoc:
  "digits_value r (z @ [c]) = digits_value r z * r + (case digit_val c of None \<Rightarrow> 0 | Some d \<Rightarrow> d)"
  by (simp add: digits_value_def)

lemma digits_value_nat_digits: "0 \<le> n \<Longrightarrow> digits_value 10 (nat_digits n) = n"
proof (induction n rule: nat_digits.induct)
  case (1 n)
  show ?case
  proof (cases "n < 10")
    case True
    then show ?thesis using "1.prems"
      by (subst nat_digits.simps) (simp add: digits_value_def digit_val_dec is_digit_dec_char)
  next
    case False
    then have "digits_value 10 (nat_digits n) =
               digits_value 10 (nat_digits (n div 10)) * 10 + n mod 10"
      by (subst nat_digits.simps)
         (simp add: digits_value_snoc digit_val_dec is_digit_dec_char)
    moreover have "digits_value 10 (nat_digits (n div 10)) = n div 10"
      using 1 False by simp
    ultimately show ?thesis by simp
  qed
qed

lemma x_not_digit: "\<not> is_digit 10 CHR ''x''" "\<not> is_digit 10 CHR ''X''"
  by (simp_all add: is_digit_10)

lemma parseInt_digits:
  assumes "z \<noteq> []" "list_all (is_digit 10) z"
  shows "parseInt z = Some (to_double (digits_value 10 z))"
    and "parseInt (CHR ''-'' # z) = Some (to_double (- digits_value 10 z))"
proof -
  obtain a w where z: "z = a # w" using assms(1) by (cases z) auto
  have a: "is_digit 10 a" using assms(2) z by simp
  have tw: "takeWhile (is_digit 10) z = z"
    using assms(2) by (simp add: list_all_iff)
  have hex: "(case z of a # b # _ \<Rightarrow> a = CHR ''0'' \<and> (b = CHR ''x'' \<or> b = CHR ''X'') | _ \<Rightarrow> False) = False"
    using assms(2) x_not_digit by (auto split: list.split)
  have ws: "dropWhile is_ws z = z" using a z by (simp add: digit_not_special)
  have neg: "(case z of c # _ \<Rightarrow> c = CHR ''-'' | [] \<Rightarrow> False) = False"
    using a z by (simp add: digit_not_special)
  have sg: "(case z of c # cs \<Rightarrow> if c = CHR ''+'' \<or> c = CHR ''-'' then cs else z | [] \<Rightarrow> z) = z"
    using a z by (simp add: digit_not_special)
  have "parseInt z = (if z = [] then None else Some (to_double (1 * digits_value 10 z)))"
    by (simp only: parseInt_def Let_def ws neg sg hex if_False tw)
  then show "parseInt z = Some (to_double (digits_value 10 z))"
    using assms(1) by simp
  have ws': "dropWhile is_ws (CHR ''-'' # z) = CHR ''-'' # z"
    by (simp add: is_ws_def)
  have "parseInt (CHR ''-'' # z) =
          (if z = [] then None else Some (to_double (- 1 * digits_value 10 z)))"
    by (simp only: parseInt_def Let_def ws' list.case simp_thms if_True hex if_False tw)
  then show "parseInt (CHR ''-'' # z) = Some (to_double (- digits_value 10 z))"
    using assms(1) by simp
qed

lemma String_of_int_small:
  assumes "\<bar>n\<bar> < 2 ^ 53"
  shows "String_of_int n = (if n < 0 then CHR ''-'' # nat_digits (- n) else nat_digits n)"
proof -
  have "\<bar>n\<bar> \<le> 2 ^ 53" "n < 2 ^ 53" "- n < 2 ^ 53"
    using assms by linarith+
  then show ?thesis
    by (simp add: String_of_int_def to_double_small pos_string_def)
qed

lemma parseInt_String_of_int:
  assumes "\<bar>n\<bar> < 2 ^ 53"
  shows "parseInt (String_of_int n) = Some n"
proof (cases "n < 0")
  case True
  then have "parseInt (String_of_int n) = Some (to_double (- digits_value 10 (nat_digits (- n))))"
    using assms
    by (simp add: String_of_int_small parseInt_digits nat_digits_nonempty nat_digits_all)
  then show ?thesis using True assms by (simp add: digits_value_nat_digits to_double_small)
next
  case False
  then have "parseInt (String_of_int n) = Some (to_double (digits_value 10 (nat_digits n)))"
    using assms
    by (simp add: String_of_int_small parseInt_digits nat_digits_nonempty nat_digits_all)
  then show ?thesis using False assms by (simp add: digits_value_nat_digits to_double_small)
qed




















subsection \<open>Bootstrap\<close>

lemma state_insert_default:
  "state_tbl (insert_default (k0, v0) s) k =
     (case state_tbl s k of Some v \<Rightarrow> Some v | None \<Rightarrow> if k = k0 then Some v0 else None)"
  by (cases "state_tbl s k0") (auto simp: insert_default_def split: option.split)

lemma insert_default_rest:
  "clicks_tbl (insert_default kv s) = clicks_tbl s"
  "logs_tbl (insert_default kv s) = logs_tbl s"
  "pendingConfirm (insert_default kv s) = pendingConfirm s"
  "sent (insert_default kv s) = sent s"
  by (simp_all add: insert_default_def split: option.split)

lemma state_fold_insert_default:
  "state_tbl (fold insert_default kvs s) k =
     (case state_tbl s k of Some v \<Rightarrow> Some v | None \<Rightarrow> map_of kvs k)"
proof (induction kvs arbitrary: s)
  case Nil
  show ?case by (simp split: option.split)
next
  case (Cons kv kvs)
  obtain k0 v0 where kv: "kv = (k0, v0)" by (cases kv)
  have "state_tbl (fold insert_default (kv # kvs) s) k =
        state_tbl (fold insert_default kvs (insert_default (k0, v0) s)) k"
    by (simp add: kv)
  also have "\<dots> = (case state_tbl (insert_default (k0, v0) s) k of
                      Some v \<Rightarrow> Some v | None \<Rightarrow> map_of kvs k)"
    by (rule Cons.IH)
  also have "\<dots> = (case state_tbl s k of Some v \<Rightarrow> Some v | None \<Rightarrow> map_of (kv # kvs) k)"
    by (simp add: state_insert_default kv split: option.split)
  finally show ?case .
qed

lemma fold_insert_default_rest:
  "clicks_tbl (fold insert_default kvs s) = clicks_tbl s \<and>
   logs_tbl (fold insert_default kvs s) = logs_tbl s \<and>
   pendingConfirm (fold insert_default kvs s) = pendingConfirm s \<and>
   sent (fold insert_default kvs s) = sent s"
  by (induction kvs arbitrary: s) (simp_all add: insert_default_rest)

lemma initDB_state:
  "state_tbl (initDB s) k = (case state_tbl s k of Some v \<Rightarrow> Some v | None \<Rightarrow> map_of defaults k)"
  by (simp add: initDB_def state_fold_insert_default)

lemma initDB_rest:
  "clicks_tbl (initDB s) = clicks_tbl s" "logs_tbl (initDB s) = logs_tbl s"
  "pendingConfirm (initDB s) = pendingConfirm s" "sent (initDB s) = sent s"
  by (simp_all add: initDB_def fold_insert_default_rest)

text \<open>
  Claim C9. Whatever the store holds, the bootstrap writes a default only for the state
  fields that are absent and leaves every value that is present as it is; it touches
  nothing else; and running it a second time changes nothing.
\<close>

theorem initDB_inserts_only_absent:
  "(\<forall>k v. state_tbl s k = Some v \<longrightarrow> state_tbl (initDB s) k = Some v) \<and>
   (\<forall>k. state_tbl s k = None \<longrightarrow> state_tbl (initDB s) k = map_of defaults k) \<and>
   initDB (initDB s) = initDB s \<and>
   clicks_tbl (initDB s) = clicks_tbl s \<and> logs_tbl (initDB s) = logs_tbl s \<and>
   pendingConfirm (initDB s) = pendingConfirm s \<and> sent (initDB s) = sent s"
proof -
  have "state_tbl (initDB (initDB s)) = state_tbl (initDB s)"
    by (rule ext) (simp add: initDB_state split: option.split)
  then have idem: "initDB (initDB s) = initDB s"
    by (intro server.equality) (simp_all add: initDB_rest)
  show ?thesis using idem by (simp add: initDB_state initDB_rest)
qed

theorem initDB_inserts_only_absent_witness:
  "state_tbl (setState ''count'' ''41'' fresh) ''count'' = Some ''41'' \<and>
   state_tbl (initDB (setState ''count'' ''41'' fresh)) ''count'' = Some ''41'' \<and>
   state_tbl (setState ''count'' ''41'' fresh) ''target'' = None \<and>
   state_tbl (initDB (setState ''count'' ''41'' fresh)) ''target'' = Some ''100''"
  using initDB_inserts_only_absent [of "setState ''count'' ''41'' fresh"]
  by (simp add: setState_def fresh_def defaults_def)

subsection \<open>Rejected clicks\<close>

lemma hasIPClicked_iff:
  "hasIPClicked s now ip \<longleftrightarrow> (\<exists>t. (ip, t) \<in> set (clicks_tbl s) \<and> now - 86400000 < t)"
proof -
  have "hasIPClicked s now ip \<longleftrightarrow>
        filter (\<lambda>row. fst row = ip) (filter (\<lambda>row. now - 86400000 < snd row) (clicks_tbl s)) \<noteq> []"
    by (simp add: hasIPClicked_def clicks_since_def hours_def)
  also have "\<dots> \<longleftrightarrow> (\<exists>row \<in> set (clicks_tbl s). fst row = ip \<and> now - 86400000 < snd row)"
    by (auto simp: filter_empty_conv)
  also have "\<dots> \<longleftrightarrow> (\<exists>t. (ip, t) \<in> set (clicks_tbl s) \<and> now - 86400000 < t)"
    by force
  finally show ?thesis .
qed

text \<open>
  Claim C4, as amended. A click whose identity has a ClickRecord newer than 24 hours is
  answered 429 \<open>already_clicked\<close>, and so is one the rate limiter refuses. A click that
  the limiter admits, whose identity has no such record, and that arrives while
  \<open>locked\<close> is \<open>true\<close> is answered 423 \<open>locked\<close> with the current \<open>lock_msg\<close>. In
  each of these cases the server is left exactly as it was: no counter increment, no
  ClickRecord, no log entry, no message.
\<close>

theorem click_rejections:
  "((\<exists>t. (ip, t) \<in> set (clicks_tbl s) \<and> now - 86400000 < t) \<longrightarrow>
      post_click admitted now ip s = (AlreadyClicked, s)) \<and>
   (\<not> admitted \<longrightarrow> post_click admitted now ip s = (AlreadyClicked, s)) \<and>
   (admitted \<and> \<not> (\<exists>t. (ip, t) \<in> set (clicks_tbl s) \<and> now - 86400000 < t) \<and>
      getState s ''locked'' = Some ''true'' \<longrightarrow>
      post_click admitted now ip s = (Locked (getState s ''lock_msg''), s)) \<and>
   status_code AlreadyClicked = 429 \<and> status_code (Locked (getState s ''lock_msg'')) = 423"
  unfolding hasIPClicked_iff [symmetric]
  by (simp add: post_click_def click_handler_def status_code_def)

text \<open>
  The claim as stated promises 423 to every click that arrives while \<open>locked\<close> is
  \<open>true\<close>. The check for an earlier click comes first (line 119): a locked server
  answers 429 to an identity that clicked within the day.
\<close>

theorem locked_click_gets_429:
  "getState clicked_and_locked ''locked'' = Some ''true'' \<and>
   post_click True 1000 ''10.0.0.1'' clicked_and_locked = (AlreadyClicked, clicked_and_locked) \<and>
   status_code (fst (post_click True 1000 ''10.0.0.1'' clicked_and_locked)) \<noteq> 423"
  by (simp add: clicked_and_locked_def post_click_def click_handler_def hasIPClicked_def
      clicks_since_def hours_def recordIPClick_def setState_def getState_def status_code_def)

theorem click_rejections_witness:
  "post_click True 1000 ''10.0.0.1'' clicked_and_locked = (AlreadyClicked, clicked_and_locked) \<and>
   post_click False 1000 ''10.0.0.2'' clicked_and_locked = (AlreadyClicked, clicked_and_locked) \<and>
   post_click True 1000 ''10.0.0.2'' clicked_and_locked =
     (Locked (Some ''The tide is retreating. The depths are recalibrating.''), clicked_and_locked)"
proof -
  have c: "clicks_tbl clicked_and_locked = [(''10.0.0.1'', 0)]"
    by (simp add: clicked_and_locked_def recordIPClick_def setState_def initDB_rest fresh_def)
  have l: "getState clicked_and_locked ''locked'' = Some ''true''"
    by (simp add: clicked_and_locked_def recordIPClick_def setState_def getState_def)
  have m: "getState clicked_and_locked ''lock_msg'' =
            Some ''The tide is retreating. The depths are recalibrating.''"
    by (simp add: clicked_and_locked_def recordIPClick_def setState_def getState_def
        initDB_state fresh_def defaults_def)
  show ?thesis
    using click_rejections [of "''10.0.0.1''" clicked_and_locked 1000 True]
      click_rejections [of "''10.0.0.2''" clicked_and_locked 1000 False]
      click_rejections [of "''10.0.0.2''" clicked_and_locked 1000 True]
    by (simp add: c l m)
qed

subsection \<open>Messages from strangers\<close>




subsection \<open>The idle-stall detector\<close>

lemma no_recent_click:
  "length (clicks_since s now (hours 3)) = 0 \<longleftrightarrow>
     list_all (\<lambda>row. snd row \<le> now - 10800000) (clicks_tbl s)"
  by (auto simp: clicks_since_def hours_def filter_empty_conv list_all_iff)

text \<open>
  Claim C7. The trailing window is 3 hours, 10800000 ms: a ClickRecord is in it when
  its \<open>clicked_at\<close> is later than \<open>now - 10800000\<close>. A run of the detector whose queries
  all succeed sends nothing when \<open>launched\<close> is \<open>true\<close>; otherwise it sends the stall
  message, with the current \<open>count\<close> and \<open>target\<close>, when every ClickRecord is 3 hours
  old or older, and nothing when one is newer. Whatever the queries do, no exception
  leaves the callback, no table and no state field changes, and nothing is sent
  unless all of the above holds and all four queries succeed.
\<close>

theorem idle_tick_behaviour:
  "idle_tick (\<lambda>i. True) now s =
     (None,
      if getState s ''launched'' = Some ''true'' then s
      else if list_all (\<lambda>row. snd row \<le> now - 10800000) (clicks_tbl s)
           then tg (TideStalling (getState s ''count'') (getState s ''target'')) s
           else s) \<and>
   fst (idle_tick ok now s) = None \<and>
   state_tbl (snd (idle_tick ok now s)) = state_tbl s \<and>
   clicks_tbl (snd (idle_tick ok now s)) = clicks_tbl s \<and>
   logs_tbl (snd (idle_tick ok now s)) = logs_tbl s \<and>
   pendingConfirm (snd (idle_tick ok now s)) = pendingConfirm s \<and>
   (if getState s ''launched'' = Some ''true''
       \<or> \<not> list_all (\<lambda>row. snd row \<le> now - 10800000) (clicks_tbl s)
       \<or> \<not> (ok 0 \<and> ok 1 \<and> ok 2 \<and> ok 3)
    then sent (snd (idle_tick ok now s)) = sent s
    else sent (snd (idle_tick ok now s)) =
           sent s @ [TideStalling (getState s ''count'') (getState s ''target'')])"
  using no_recent_click [of s now]
  by (simp add: idle_tick_def idle_body_def tg_def)

text \<open>
  On a server just bootstrapped the detector sends the stall message; not when a
  query fails, nor when \<open>launched\<close> is \<open>true\<close>, nor when there is a click of this
  instant. At the edge of the window: with one click at time 0, the run at 10799999
  sends nothing, and the runs at 10800000 (the click is exactly 3 hours old) and at
  14400000 (4 hours old) send the message.
\<close>

theorem idle_tick_behaviour_witness:
  "idle_tick (\<lambda>i. True) 0 (initDB fresh)
     = (None, tg (TideStalling (Some ''0'') (Some ''100'')) (initDB fresh)) \<and>
   sent (snd (idle_tick (\<lambda>i. i \<noteq> 1) 0 (initDB fresh))) = [] \<and>
   sent (snd (idle_tick (\<lambda>i. True) 0 (setState ''launched'' ''true'' (initDB fresh)))) = [] \<and>
   sent (snd (idle_tick (\<lambda>i. True) 0 (recordIPClick 0 ''10.0.0.1'' (initDB fresh)))) = [] \<and>
   sent (snd (idle_tick (\<lambda>i. True) 10799999 (recordIPClick 0 ''10.0.0.1'' (initDB fresh)))) = [] \<and>
   sent (snd (idle_tick (\<lambda>i. True) 10800000 (recordIPClick 0 ''10.0.0.1'' (initDB fresh))))
     = [TideStalling (Some ''0'') (Some ''100'')] \<and>
   sent (snd (idle_tick (\<lambda>i. True) 14400000 (recordIPClick 0 ''10.0.0.1'' (initDB fresh))))
     = [TideStalling (Some ''0'') (Some ''100'')]"
proof -
  have a: "getState (initDB fresh) ''launched'' = Some ''false''"
    "getState (initDB fresh) ''count'' = Some ''0''"
    "getState (initDB fresh) ''target'' = Some ''100''"
    by (simp_all add: getState_def initDB_state fresh_def defaults_def)
  have b: "clicks_tbl (initDB fresh) = []" "sent (initDB fresh) = []"
    by (simp_all add: initDB_rest fresh_def)
  have c: "getState (setState ''launched'' ''true'' (initDB fresh)) ''launched'' = Some ''true''"
    "sent (setState ''launched'' ''true'' (initDB fresh)) = []"
    by (simp_all add: getState_def setState_def initDB_rest fresh_def)
  have d: "getState (recordIPClick 0 ''10.0.0.1'' (initDB fresh)) ''launched'' = Some ''false''"
    "getState (recordIPClick 0 ''10.0.0.1'' (initDB fresh)) ''count'' = Some ''0''"
    "getState (recordIPClick 0 ''10.0.0.1'' (initDB fresh)) ''target'' = Some ''100''"
    "clicks_tbl (recordIPClick 0 ''10.0.0.1'' (initDB fresh)) = [(''10.0.0.1'', 0)]"
    "sent (recordIPClick 0 ''10.0.0.1'' (initDB fresh)) = []"
    by (simp_all add: getState_def recordIPClick_def initDB_state initDB_rest fresh_def
        defaults_def)
  show ?thesis
    using idle_tick_behaviour [of 0 "initDB fresh" "\<lambda>i. i \<noteq> 1"]
      idle_tick_behaviour [of 0 "setState ''launched'' ''true'' (initDB fresh)" "\<lambda>i. True"]
      idle_tick_behaviour [of 0 "recordIPClick 0 ''10.0.0.1'' (initDB fresh)" "\<lambda>i. True"]
      idle_tick_behaviour [of 10799999 "recordIPClick 0 ''10.0.0.1'' (initDB fresh)" "\<lambda>i. True"]
      idle_tick_behaviour [of 10800000 "recordIPClick 0 ''10.0.0.1'' (initDB fresh)" "\<lambda>i. True"]
      idle_tick_behaviour [of 14400000 "recordIPClick 0 ''10.0.0.1'' (initDB fresh)" "\<lambda>i. True"]
    by (simp add: a b c d tg_def)
qed

subsection \<open>The confirmed reset\<close>

text \<open>
  Claim C10. The confirmed reset changes no state field other than \<open>count\<close>, \<open>ca\<close>,
  \<open>blessed\<close>, \<open>decree\<close>, \<open>tide_warning\<close> and \<open>launched\<close>: \<open>target\<close>, \<open>locked\<close> and
  \<open>lock_msg\<close> keep their values, and so does every other key. Beside the state fields
  and the click records it appends its own entry to the audit log, sends its message,
  and leaves the pending confirmations alone.
\<close>

theorem reset_frame:
  "(k \<notin> set [''count'', ''ca'', ''blessed'', ''decree'', ''tide_warning'', ''launched''] \<longrightarrow>
      state_tbl (handleConfirmed now ''reset'' s) k = state_tbl s k) \<and>
   getState (handleConfirmed now ''reset'' s) ''target'' = getState s ''target'' \<and>
   getState (handleConfirmed now ''reset'' s) ''locked'' = getState s ''locked'' \<and>
   getState (handleConfirmed now ''reset'' s) ''lock_msg'' = getState s ''lock_msg'' \<and>
   pendingConfirm (handleConfirmed now ''reset'' s) = pendingConfirm s \<and>
   logs_tbl (handleConfirmed now ''reset'' s) = logs_tbl s @ [(''reset'', ''Full reset'', now)] \<and>
   sent (handleConfirmed now ''reset'' s) = sent s @ [ResetComplete]"
  by (simp add: handleConfirmed_def update_where_def delete_clicks_def addLog_def tg_def
      getState_def Let_def)

theorem reset_frame_witness:
  "''target'' \<notin> set [''count'', ''ca'', ''blessed'', ''decree'', ''tide_warning'', ''launched''] \<and>
   state_tbl (handleConfirmed 9 ''reset'' (setState ''target'' ''150'' (initDB fresh))) ''target''
     = Some ''150''"
  using reset_frame [of "''target''" 9 "setState ''target'' ''150'' (initDB fresh)"]
  by (simp add: setState_def)

subsection \<open>Operator commands\<close>

lemma cmd_of_CONFIRM: "cmd_of ''CONFIRM'' = ''confirm''"
  by code_simp

lemma operator_command:
  "trim raw \<noteq> ''CONFIRM'' \<Longrightarrow>
   post_webhook admin now (Some (admin, Str raw)) s =
     dispatch now admin (trim raw) (addLog now ''tg_command'' (take 120 (trim raw)) s)"
  by (simp add: post_webhook_def webhook_try_def Let_def)


lemma dispatch_reset:
  "cmd_of text = ''/reset'' \<Longrightarrow>
   dispatch now chatId text s =
     tg ResetWarning (s\<lparr>pendingConfirm := (pendingConfirm s)(chatId \<mapsto> (''reset'', now + 60000))\<rparr>)"
  by (simp add: dispatch_def Let_def)





subsection \<open>Reset and confirmation\<close>

lemma bootstrapped_keys:
  "bootstrapped s \<longleftrightarrow>
     state_tbl s ''count'' \<noteq> None \<and> state_tbl s ''target'' \<noteq> None \<and> state_tbl s ''ca'' \<noteq> None \<and>
     state_tbl s ''launched'' \<noteq> None \<and> state_tbl s ''locked'' \<noteq> None \<and>
     state_tbl s ''lock_msg'' \<noteq> None \<and> state_tbl s ''decree'' \<noteq> None \<and>
     state_tbl s ''tide_warning'' \<noteq> None \<and> state_tbl s ''blessed'' \<noteq> None"
  by (simp add: bootstrapped_def defaults_def)

lemma bootstrapped_initDB: "bootstrapped (initDB s)"
  by (simp add: bootstrapped_keys initDB_state defaults_def split: option.split)

lemma after_reset_command:
  assumes "cmd_of (trim raw) = ''/reset''"
  shows "post_webhook admin now (Some (admin, Str raw)) s =
     tg ResetWarning
       ((addLog now ''tg_command'' (take 120 (trim raw)) s)
          \<lparr>pendingConfirm := (pendingConfirm s)(admin \<mapsto> (''reset'', now + 60000))\<rparr>)"
proof -
  have "trim raw \<noteq> ''CONFIRM''" using assms cmd_of_CONFIRM by auto
  then show ?thesis using assms by (simp add: operator_command dispatch_reset addLog_def)
qed

lemma confirm_pending:
  assumes "trim raw = ''CONFIRM''" "pendingConfirm s admin = Some (command, expiresAt)"
  shows "post_webhook admin now (Some (admin, Str raw)) s =
     (let s2 = (addLog now ''tg_command'' ''CONFIRM'' s)\<lparr>pendingConfirm := (pendingConfirm s)(admin := None)\<rparr>
      in if expiresAt < now then tg ConfirmExpired s2 else handleConfirmed now command s2)"
  using assms by (simp add: post_webhook_def webhook_try_def Let_def addLog_def)

text \<open>
  Claim C3. On a bootstrapped store, the operator sends \<open>/reset\<close> at time \<open>t1\<close> and then
  \<open>CONFIRM\<close> at time \<open>t2\<close>. If \<open>t2\<close> is not past the expiry \<open>t1 + 60000\<close>, then
  \<open>count\<close> is \<open>0\<close>, the fields \<open>ca\<close>, \<open>blessed\<close>, \<open>decree\<close> and \<open>tide_warning\<close> are
  empty, \<open>launched\<close> is \<open>false\<close>, and no ClickRecord is left. If \<open>t2\<close> is past the
  expiry, no state field changes, no ClickRecord is deleted, and the operator is told
  that the confirmation expired. Either way the pending confirmation is consumed.
\<close>

theorem reset_then_confirm:
  assumes "cmd_of (trim raw1) = ''/reset''" and "trim raw2 = ''CONFIRM''" and "bootstrapped s"
  shows "(t2 \<le> t1 + 60000 \<longrightarrow>
            getState (webhook_seq admin [(t1, admin, raw1), (t2, admin, raw2)] s) ''count'' = Some ''0'' \<and>
            getState (webhook_seq admin [(t1, admin, raw1), (t2, admin, raw2)] s) ''ca'' = Some [] \<and>
            getState (webhook_seq admin [(t1, admin, raw1), (t2, admin, raw2)] s) ''blessed'' = Some [] \<and>
            getState (webhook_seq admin [(t1, admin, raw1), (t2, admin, raw2)] s) ''decree'' = Some [] \<and>
            getState (webhook_seq admin [(t1, admin, raw1), (t2, admin, raw2)] s) ''tide_warning'' = Some [] \<and>
            getState (webhook_seq admin [(t1, admin, raw1), (t2, admin, raw2)] s) ''launched'' = Some ''false'' \<and>
            clicks_tbl (webhook_seq admin [(t1, admin, raw1), (t2, admin, raw2)] s) = [] \<and>
            sent (webhook_seq admin [(t1, admin, raw1), (t2, admin, raw2)] s)
              = sent s @ [ResetWarning, ResetComplete]) \<and>
         (t1 + 60000 < t2 \<longrightarrow>
            state_tbl (webhook_seq admin [(t1, admin, raw1), (t2, admin, raw2)] s) = state_tbl s \<and>
            clicks_tbl (webhook_seq admin [(t1, admin, raw1), (t2, admin, raw2)] s) = clicks_tbl s \<and>
            sent (webhook_seq admin [(t1, admin, raw1), (t2, admin, raw2)] s)
              = sent s @ [ResetWarning, ConfirmExpired]) \<and>
         pendingConfirm (webhook_seq admin [(t1, admin, raw1), (t2, admin, raw2)] s) admin = None"
proof -
  let ?s1 = "post_webhook admin t1 (Some (admin, Str raw1)) s"
  have s1: "?s1 = tg ResetWarning
       ((addLog t1 ''tg_command'' (take 120 (trim raw1)) s)
          \<lparr>pendingConfirm := (pendingConfirm s)(admin \<mapsto> (''reset'', t1 + 60000))\<rparr>)"
    by (rule after_reset_command [OF assms(1)])
  have p: "pendingConfirm ?s1 admin = Some (''reset'', t1 + 60000)"
    by (simp add: s1 tg_def)
  have seq: "webhook_seq admin [(t1, admin, raw1), (t2, admin, raw2)] s
           = post_webhook admin t2 (Some (admin, Str raw2)) ?s1"
    by (simp add: webhook_seq_def)
  note c = confirm_pending [OF assms(2) p, of t2]
  show ?thesis
    using assms(3) unfolding seq c
    by (simp add: s1 Let_def tg_def addLog_def handleConfirmed_def update_where_def
        delete_clicks_def getState_def bootstrapped_keys)
qed

theorem reset_then_confirm_witness:
  "getState (webhook_seq ''42'' [(1000, ''42'', ''/reset''), (61000, ''42'', '' CONFIRM'')]
      one_click) ''count'' = Some ''0'' \<and>
   clicks_tbl (webhook_seq ''42'' [(1000, ''42'', ''/reset''), (61000, ''42'', '' CONFIRM'')]
      one_click) = [] \<and>
   state_tbl (webhook_seq ''42'' [(1000, ''42'', ''/reset''), (61001, ''42'', '' CONFIRM'')]
      one_click) ''count'' = Some ''1'' \<and>
   clicks_tbl (webhook_seq ''42'' [(1000, ''42'', ''/reset''), (61001, ''42'', '' CONFIRM'')]
      one_click) = [(''10.0.0.1'', 0)] \<and>
   sent (webhook_seq ''42'' [(1000, ''42'', ''/reset''), (61001, ''42'', '' CONFIRM'')]
      one_click) = [ResetWarning, ConfirmExpired]"
proof -
  have a: "cmd_of (trim ''/reset'') = ''/reset''" "trim '' CONFIRM'' = ''CONFIRM''"
    by code_simp+
  have b: "bootstrapped one_click"
    using bootstrapped_initDB [of fresh]
    by (simp add: bootstrapped_keys one_click_def recordIPClick_def setState_def)
  have c: "state_tbl one_click ''count'' = Some ''1''" "clicks_tbl one_click = [(''10.0.0.1'', 0)]"
    "sent one_click = []"
    by (simp_all add: one_click_def recordIPClick_def setState_def initDB_rest fresh_def)
  show ?thesis
    using reset_then_confirm [OF a b, of 61000 1000 "''42''"]
      reset_then_confirm [OF a b, of 61001 1000 "''42''"]
    by (simp add: c)
qed

subsection \<open>Milestone messages\<close>

lemma floor_half: "\<lfloor>(of_int t :: rat) * (1 / 2)\<rfloor> = t div 2"
  using floor_divide_of_int_eq [of t 2, where ?'a = rat] by simp

lemma floor_three_quarters: "\<lfloor>(of_int t :: rat) * (3 / 4)\<rfloor> = (3 * t) div 4"
  using floor_divide_of_int_eq [of "3 * t" 4, where ?'a = rat] by (simp add: mult.commute)

text \<open>
  Claim C5, as amended. An accepted click with post-increment value \<open>n\<close>, target \<open>t\<close>
  and blessed value \<open>b\<close> sends a progress message if and only if \<open>n\<close> is a multiple of
  10. The message carries \<open>n\<close>, \<open>t\<close> and the percentage \<open>Math.round((n/t)*100)\<close> as
  binary64 arithmetic computes it: the quotient is rounded before it is multiplied.
  It carries the halfway text if and only if \<open>n = \<lfloor>t * 0.5\<rfloor>\<close>, the three-quarters text
  if and only if \<open>n = \<lfloor>t * 0.75\<rfloor>\<close>, and the 10-remaining text if and only if
  \<open>n = t - 10\<close>. Separately, the blessed message is sent if and only if \<open>b\<close> is set and
  \<open>parseInt b\<close> is \<open>n\<close>. The launch message follows when \<open>t \<le> n\<close> and \<open>launched\<close> is not
  yet \<open>true\<close>.
\<close>

theorem click_notifications:
  assumes "\<not> hasIPClicked s now ip" and "getState s ''locked'' \<noteq> Some ''true''"
    and "n = parseInt_or (getState s ''count'') 0 + 1"
    and "t = parseInt_or (getState s ''target'') 100"
    and "b = getState s ''blessed''"
  shows "sent (snd (post_click True now ip s)) =
           sent s
           @ (if n mod 10 = 0
              then [TideUpdate n t (Math_round (fl (fl (of_int n / of_int t) * 100)))
                      (n = \<lfloor>(of_int t :: rat) * (1 / 2)\<rfloor>)
                      (n = \<lfloor>(of_int t :: rat) * (3 / 4)\<rfloor>)
                      (n = t - 10)]
              else [])
           @ (if truthy b \<and> parseInt (str_of b) = Some n then [BlessedArrived n] else [])
           @ (if t \<le> n \<and> getState s ''launched'' \<noteq> Some ''true'' then [Unleashed n] else [])"
  using assms
  by (simp add: post_click_def click_handler_def Let_def progress_msg_def pct_def tg_def
      setState_def addLog_def recordIPClick_def getState_def)

theorem click_notifications_witness:
  "\<not> hasIPClicked at_49_blessed_50 0 ''10.0.0.1'' \<and>
   getState at_49_blessed_50 ''locked'' \<noteq> Some ''true'' \<and>
   sent (snd (post_click True 0 ''10.0.0.1'' at_49_blessed_50))
     = [TideUpdate 50 100 50 True False False, BlessedArrived 50]"
proof -
  have a: "\<not> hasIPClicked at_49_blessed_50 0 ''10.0.0.1''"
    "getState at_49_blessed_50 ''locked'' \<noteq> Some ''true''"
    "50 = parseInt_or (getState at_49_blessed_50 ''count'') 0 + 1"
    "100 = parseInt_or (getState at_49_blessed_50 ''target'') 100"
    "Some ''50'' = getState at_49_blessed_50 ''blessed''"
    by code_simp+
  have b: "Math_round (fl (fl (1 / 2) * 100)) = 50"
    "parseInt (str_of (Some ''50'')) = Some 50" "truthy (Some ''50'')"
    "getState at_49_blessed_50 ''launched'' = Some ''false''"
    "sent at_49_blessed_50 = []"
    by code_simp+
  show ?thesis
    using click_notifications [OF a] a(1,2) by (simp add: b)
qed

text \<open>
  The claim as stated has the percentage equal to \<open>round(100*n/t)\<close>. At \<open>n = 230\<close> and
  \<open>t = 400\<close> the exact value is 57.5, which rounds to 58; the server computes
  \<open>230/400\<close> first, gets a binary64 number just below 0.575, and sends 57.
\<close>

theorem percentage_is_not_exact_rounding:
  "sent (snd (post_click True 0 ''10.0.0.1'' at_229_of_400))
     = [TideUpdate 230 400 57 False False False] \<and>
   Math_round (100 * 230 / 400) = 58"
  by code_simp

subsection \<open>Clicks in flight together\<close>

lemma booted_eq:
  "booted = \<lparr>state_tbl = map_of defaults, clicks_tbl = [], logs_tbl = [],
              pendingConfirm = Map.empty, sent = []\<rparr>"
proof -
  have "state_tbl (initDB fresh) = map_of defaults"
    by (rule ext) (simp add: initDB_state fresh_def)
  then show ?thesis
    unfolding booted_def by (intro server.equality) (simp_all add: initDB_rest fresh_def)
qed

lemmas store_defs =
  getState_def setState_def recordIPClick_def addLog_def tg_def

lemma run_sched_append: "run_sched (a @ b) c = run_sched b (run_sched a c)"
proof (induction a arbitrary: c)
  case Nil
  show ?case by simp
next
  case (Cons x a)
  obtain i now where x: "x = (i, now)" by (cases x)
  obtain ts s where c: "c = (ts, s)" by (cases c)
  show ?case by (simp add: x c Cons.IH split: prod.split)
qed

lemma run_sched_replicate:
  "i < length ts \<Longrightarrow>
   run_sched (replicate k (i, now)) (ts, s) =
     (ts[i := fst (run_task k now (ts ! i, s))], snd (run_task k now (ts ! i, s)))"
proof (induction k arbitrary: ts s)
  case 0
  show ?case by simp
next
  case (Suc k)
  obtain t' s' where st: "click_step now (ts ! i) s = (t', s')" by (cases "click_step now (ts ! i) s")
  have "run_sched (replicate (Suc k) (i, now)) (ts, s) =
        run_sched (replicate k (i, now)) (ts[i := t'], s')"
    using Suc.prems by (simp add: st)
  also have "\<dots> = ((ts[i := t'])[i := fst (run_task k now ((ts[i := t']) ! i, s'))],
                    snd (run_task k now ((ts[i := t']) ! i, s')))"
    using Suc.prems by (intro Suc.IH) simp
  finally show ?case using Suc.prems by (simp add: st)
qed

lemma phase_read:
  assumes "\<not> hasIPClicked s now ip" and "getState s ''locked'' \<noteq> Some ''true''"
  shows "run_task 4 now (new_task ip, s) =
           (\<lparr>t_pc = AtWriteCount, t_ip = ip,
             t_count = parseInt_or (getState s ''count'') 0,
             t_target = parseInt_or (getState s ''target'') 100,
             t_n = parseInt_or (getState s ''count'') 0 + 1\<rparr>, s)"
  using assms by (simp add: eval_nat_numeral new_task_def click_step_def)

lemma numerals_read:
  "parseInt_or (Some ''0'') 0 = 0" "parseInt_or (Some ''99'') 0 = 99"
  "parseInt_or (Some ''100'') 0 = 100" "parseInt_or (Some ''100'') 100 = 100"
  "String_of_int 1 = ''1''" "String_of_int 100 = ''100''" "String_of_int 101 = ''101''"
  "pct 100 100 = 100"
  by code_simp+

lemma booted_reads:
  "\<not> hasIPClicked booted now ip" "getState booted ''locked'' = Some ''false''"
  "getState booted ''count'' = Some ''0''" "getState booted ''target'' = Some ''100''"
  "getState booted ''blessed'' = Some []" "getState booted ''launched'' = Some ''false''"
  by (simp_all add: booted_eq defaults_def hasIPClicked_def clicks_since_def getState_def)

text \<open>
  Claim C1 asks that \<open>N\<close> accepted concurrent clicks raise \<open>count\<close> by \<open>N\<close>. The handler
  reads \<open>count\<close> (line 124) and writes it back (line 127) in separate round trips. Under
  \<open>reads_first\<close>, two clicks from two identities on a fresh server are both accepted,
  both answer \<open>count: 1\<close>, two ClickRecords are written, and \<open>count\<close> ends at 1, not 2.
\<close>

theorem concurrent_clicks_lose_update:
  "responses (fst (run_sched reads_first (two_tasks, booted)))
     = [Some (ClickOk 1 100 False), Some (ClickOk 1 100 False)] \<and>
   getState booted ''count'' = Some ''0'' \<and>
   getState (snd (run_sched reads_first (two_tasks, booted))) ''count'' = Some ''1'' \<and>
   clicks_tbl (snd (run_sched reads_first (two_tasks, booted)))
     = [(''10.0.0.1'', 0), (''10.0.0.2'', 0)]"
proof -
  let ?a = "\<lambda>ip. \<lparr>t_pc = AtWriteCount, t_ip = ip, t_count = 0, t_target = 100, t_n = 1\<rparr>"
  let ?d = "\<lambda>ip. \<lparr>t_pc = Finished (ClickOk 1 100 False), t_ip = ip, t_count = 0,
                   t_target = 100, t_n = 1\<rparr>"
  let ?w = "\<lambda>ip s. addLog 0 ''click'' (''IP:'' @ ip @ '' Count:1'')
                    (recordIPClick 0 ip (setState ''count'' ''1'' s))"
  have rd: "run_task 4 0 (new_task ip, booted) = (?a ip, booted)" for ip
    by (simp add: phase_read booted_reads numerals_read)
  have wr: "run_task 4 0 (?a ip, s) = (?d ip, ?w ip s)"
    if "getState s ''blessed'' = Some []" for ip s
    using that
    by (simp add: eval_nat_numeral click_step_def launch_check_def truthy_def numerals_read
        getState_def setState_def recordIPClick_def addLog_def)
  have bl: "getState (?w ip booted) ''blessed'' = Some []" for ip
    using booted_reads(5) by (simp add: getState_def setState_def recordIPClick_def addLog_def)
  have 1: "run_sched (replicate 4 (0, 0)) (two_tasks, booted)
             = ([?a ''10.0.0.1'', new_task ''10.0.0.2''], booted)"
    by (simp add: run_sched_replicate two_tasks_def rd)
  have 2: "run_sched (replicate 4 (1, 0)) ([?a ''10.0.0.1'', new_task ''10.0.0.2''], booted)
             = ([?a ''10.0.0.1'', ?a ''10.0.0.2''], booted)"
    by (simp add: run_sched_replicate rd)
  have 3: "run_sched (replicate 4 (0, 0)) ([?a ''10.0.0.1'', ?a ''10.0.0.2''], booted)
             = ([?d ''10.0.0.1'', ?a ''10.0.0.2''], ?w ''10.0.0.1'' booted)"
    using wr [OF booted_reads(5), of "''10.0.0.1''"] by (simp add: run_sched_replicate)
  have 4: "run_sched (replicate 4 (1, 0))
             ([?d ''10.0.0.1'', ?a ''10.0.0.2''], ?w ''10.0.0.1'' booted)
             = ([?d ''10.0.0.1'', ?d ''10.0.0.2''], ?w ''10.0.0.2'' (?w ''10.0.0.1'' booted))"
    using wr [OF bl, of "''10.0.0.2''" "''10.0.0.1''"] by (simp add: run_sched_replicate)
  have run: "run_sched reads_first (two_tasks, booted)
          = ([?d ''10.0.0.1'', ?d ''10.0.0.2''], ?w ''10.0.0.2'' (?w ''10.0.0.1'' booted))"
    unfolding reads_first_def run_sched_append 1 2 3 4 ..
  have c: "getState (?w ''10.0.0.2'' (?w ''10.0.0.1'' booted)) ''count'' = Some ''1''"
    by (simp add: getState_def setState_def recordIPClick_def addLog_def)
  have k: "clicks_tbl (?w ''10.0.0.2'' (?w ''10.0.0.1'' booted))
             = [(''10.0.0.1'', 0), (''10.0.0.2'', 0)]"
    by (simp add: setState_def recordIPClick_def addLog_def booted_eq)
  show ?thesis
    unfolding run using c k by (simp add: responses_def booted_reads)
qed

text \<open>
  Claim C2 asks that the launch message goes out at most once, also when concurrent
  clicks cross the target together. The handler reads \<open>launched\<close> (line 146) and sets it
  (line 148) in separate round trips. Under \<open>crossing\<close>, with \<open>count\<close> at 99 of 100, both
  clicks read \<open>launched\<close> as \<open>false\<close>, both set it, and both send the launch message.
\<close>

theorem concurrent_clicks_launch_twice:
  "responses (fst (run_sched crossing (two_tasks, at_99_of_100)))
     = [Some (ClickOk 100 100 True), Some (ClickOk 101 100 True)] \<and>
   getState at_99_of_100 ''launched'' = Some ''false'' \<and>
   getState (snd (run_sched crossing (two_tasks, at_99_of_100))) ''launched'' = Some ''true'' \<and>
   filter is_launch_note (sent (snd (run_sched crossing (two_tasks, at_99_of_100))))
     = [Unleashed 100, Unleashed 101]"
proof -
  let ?t = "\<lambda>pc ip c. \<lparr>t_pc = pc, t_ip = ip, t_count = c, t_target = 100, t_n = c + 1\<rparr>"
  let ?w = "\<lambda>ip n s. addLog 0 ''click'' (''IP:'' @ ip @ '' Count:'' @ n)
                      (recordIPClick 0 ip (setState ''count'' n s))"
  let ?s1 = "tg (progress_msg 100 100) (?w ''10.0.0.1'' ''100'' at_99_of_100)"
  let ?s2 = "?w ''10.0.0.2'' ''101'' ?s1"
  let ?s3 = "tg (Unleashed 100) (setState ''launched'' ''true'' ?s2)"
  let ?s4 = "tg (Unleashed 101) (setState ''launched'' ''true'' ?s3)"
  have a: "run_task 10 0 (new_task ''10.0.0.1'', at_99_of_100)
             = (?t AtWriteLaunched ''10.0.0.1'' 99, ?s1)"
    by (simp add: eval_nat_numeral new_task_def click_step_def launch_check_def truthy_def
        Let_def hasIPClicked_def clicks_since_def hours_def store_defs at_99_of_100_def booted_eq
        defaults_def numerals_read)
  have b: "run_task 9 0 (new_task ''10.0.0.2'', ?s1)
             = (?t AtWriteLaunched ''10.0.0.2'' 100, ?s2)"
    by (simp add: eval_nat_numeral new_task_def click_step_def launch_check_def truthy_def
        Let_def hasIPClicked_def clicks_since_def hours_def store_defs at_99_of_100_def booted_eq
        defaults_def numerals_read)
  have c: "run_task 2 0 (?t AtWriteLaunched ''10.0.0.1'' 99, ?s2)
             = (?t (Finished (ClickOk 100 100 True)) ''10.0.0.1'' 99, ?s3)"
    by (simp add: eval_nat_numeral click_step_def)
  have d: "run_task 2 0 (?t AtWriteLaunched ''10.0.0.2'' 100, ?s3)
             = (?t (Finished (ClickOk 101 100 True)) ''10.0.0.2'' 100, ?s4)"
    by (simp add: eval_nat_numeral click_step_def)
  have 1: "run_sched (replicate 10 (0, 0)) (two_tasks, at_99_of_100)
             = ([?t AtWriteLaunched ''10.0.0.1'' 99, new_task ''10.0.0.2''], ?s1)"
    using a by (simp add: run_sched_replicate two_tasks_def)
  have 2: "run_sched (replicate 9 (1, 0))
             ([?t AtWriteLaunched ''10.0.0.1'' 99, new_task ''10.0.0.2''], ?s1)
             = ([?t AtWriteLaunched ''10.0.0.1'' 99, ?t AtWriteLaunched ''10.0.0.2'' 100], ?s2)"
    using b by (simp add: run_sched_replicate)
  have 3: "run_sched (replicate 2 (0, 0))
             ([?t AtWriteLaunched ''10.0.0.1'' 99, ?t AtWriteLaunched ''10.0.0.2'' 100], ?s2)
             = ([?t (Finished (ClickOk 100 100 True)) ''10.0.0.1'' 99,
                 ?t AtWriteLaunched ''10.0.0.2'' 100], ?s3)"
    using c by (simp add: run_sched_replicate)
  have 4: "run_sched (replicate 2 (1, 0))
             ([?t (Finished (ClickOk 100 100 True)) ''10.0.0.1'' 99,
               ?t AtWriteLaunched ''10.0.0.2'' 100], ?s3)
             = ([?t (Finished (ClickOk 100 100 True)) ''10.0.0.1'' 99,
                 ?t (Finished (ClickOk 101 100 True)) ''10.0.0.2'' 100], ?s4)"
    using d by (simp add: run_sched_replicate)
  have run: "run_sched crossing (two_tasks, at_99_of_100)
          = ([?t (Finished (ClickOk 100 100 True)) ''10.0.0.1'' 99,
              ?t (Finished (ClickOk 101 100 True)) ''10.0.0.2'' 100], ?s4)"
    unfolding crossing_def run_sched_append 1 2 3 4 ..
  have e: "getState at_99_of_100 ''launched'' = Some ''false''"
    "getState ?s4 ''launched'' = Some ''true''"
    "filter is_launch_note (sent ?s4) = [Unleashed 100, Unleashed 101]"
    by (simp_all add: store_defs at_99_of_100_def booted_eq defaults_def is_launch_note_def
        progress_msg_def)
  show ?thesis
    unfolding run using e by (simp add: responses_def)
qed

text \<open>
  Run alone, a task is the handler: fourteen steps reach the response of
  \<open>click_handler\<close> and leave the server it leaves.
\<close>

lemma run_task_14:
  "run_task 14 now (new_task ip, s) =
     (\<lparr>t_pc = Finished (fst (click_handler now ip s)), t_ip = ip,
        t_count = t_count (fst (run_task 14 now (new_task ip, s))),
        t_target = t_target (fst (run_task 14 now (new_task ip, s))),
        t_n = t_n (fst (run_task 14 now (new_task ip, s)))\<rparr>,
      snd (click_handler now ip s))"
  by (simp add: eval_nat_numeral new_task_def click_step_def click_handler_def Let_def
      launch_check_def)

lemma run_task_is_click_handler:
  "t_pc (fst (run_task 14 now (new_task ip, s))) = Finished (fst (click_handler now ip s)) \<and>
   snd (run_task 14 now (new_task ip, s)) = snd (click_handler now ip s)"
proof -
  obtain t' s' where r: "run_task 14 now (new_task ip, s) = (t', s')"
    by (cases "run_task 14 now (new_task ip, s)")
  have "(t', s') = (\<lparr>t_pc = Finished (fst (click_handler now ip s)), t_ip = ip,
        t_count = t_count t', t_target = t_target t', t_n = t_n t'\<rparr>,
      snd (click_handler now ip s))"
    using run_task_14 [of now ip s] unfolding r by simp
  then have "t_pc t' = Finished (fst (click_handler now ip s))" "s' = snd (click_handler now ip s)"
    by (metis fst_conv task.select_convs(1), metis snd_conv)
  then show ?thesis by (simp add: r)
qed

text \<open>
  Run alone, an accepted click adds exactly one to the counter: the numeral it writes
  reads back as the old value plus one (below \<open>2^53\<close>, where every integer is a number
  of the host language).
\<close>

lemma click_sequential_count:
  assumes "\<not> hasIPClicked s now ip" and "getState s ''locked'' \<noteq> Some ''true''"
    and "\<bar>parseInt_or (getState s ''count'') 0 + 1\<bar> < 2 ^ 53"
  shows "parseInt (str_of (getState (snd (click_handler now ip s)) ''count''))
           = Some (parseInt_or (getState s ''count'') 0 + 1)"
  using assms
  by (simp add: click_handler_def Let_def store_defs str_of_def parseInt_String_of_int)

subsection \<open>Clicks one after the other\<close>

lemma parseInt_or_String: "\<bar>n\<bar> < 2 ^ 53 \<Longrightarrow> parseInt_or (Some (String_of_int n)) 0 = n"
  by (simp add: parseInt_or_def str_of_def parseInt_String_of_int)

lemma post_click_ok_iff:
  "is_ok (fst (post_click True now ip s)) \<longleftrightarrow>
     \<not> hasIPClicked s now ip \<and> getState s ''locked'' \<noteq> Some ''true''"
  by (simp add: post_click_def click_handler_def is_ok_def Let_def)

lemma post_click_ok_count:
  assumes "is_ok (fst (post_click True now ip s))"
    and "\<bar>parseInt_or (getState s ''count'') 0 + 1\<bar> < 2 ^ 53"
  shows "parseInt_or (getState (snd (post_click True now ip s)) ''count'') 0
           = parseInt_or (getState s ''count'') 0 + 1"
  using assms unfolding post_click_ok_iff
  by (simp add: post_click_def click_handler_def Let_def store_defs parseInt_or_String)

lemma post_click_rejected:
  assumes "\<not> is_ok (fst (post_click True now ip s))"
  shows "snd (post_click True now ip s) = s"
  using assms unfolding post_click_ok_iff
  by (auto simp: post_click_def click_handler_def)

text \<open>
  Handled one after the other, the accepted clicks of any run are all counted: the
  counter rises by the number of 200 responses, as long as it stays below \<open>2^53\<close>.
\<close>

lemma click_seq_count:
  assumes "0 \<le> parseInt_or (getState s ''count'') 0"
    and "parseInt_or (getState s ''count'') 0 + int (length reqs) < 2 ^ 53"
  shows "parseInt_or (getState (snd (click_seq reqs s)) ''count'') 0
     = parseInt_or (getState s ''count'') 0 + int (length (filter is_ok (fst (click_seq reqs s))))"
  using assms
proof (induction reqs arbitrary: s)
  case Nil
  show ?case by simp
next
  case (Cons rq reqs)
  obtain now ip where rq: "rq = (now, ip)" by (cases rq)
  obtain r s' where p: "post_click True now ip s = (r, s')" by (cases "post_click True now ip s")
  obtain rs s'' where q: "click_seq reqs s' = (rs, s'')" by (cases "click_seq reqs s'")
  have bd: "\<bar>parseInt_or (getState s ''count'') 0 + 1\<bar> < 2 ^ 53"
    using Cons.prems by simp
  have st: "parseInt_or (getState s' ''count'') 0
              = parseInt_or (getState s ''count'') 0 + (if is_ok r then 1 else 0)"
    using post_click_ok_count [OF _ bd, of now ip] post_click_rejected [of now ip s]
    by (simp add: p)
  have ih: "parseInt_or (getState s'' ''count'') 0
              = parseInt_or (getState s' ''count'') 0 + int (length (filter is_ok rs))"
    using Cons.IH [of s'] Cons.prems st by (simp add: q)
  show ?case using ih st by (simp add: rq p q)
qed

lemma click_handler_launch_notes:
  "launch_notes (snd (click_handler now ip s)) =
     launch_notes s +
       (if \<not> hasIPClicked s now ip \<and> getState s ''locked'' \<noteq> Some ''true'' \<and>
           getState s ''launched'' \<noteq> Some ''true'' \<and>
           parseInt_or (getState s ''target'') 100 \<le> parseInt_or (getState s ''count'') 0 + 1
        then 1 else 0)"
  by (simp add: click_handler_def Let_def store_defs launch_notes_def is_launch_note_def
      progress_msg_def)

lemma click_handler_launched:
  "getState (snd (click_handler now ip s)) ''launched'' =
     (if \<not> hasIPClicked s now ip \<and> getState s ''locked'' \<noteq> Some ''true'' \<and>
         getState s ''launched'' \<noteq> Some ''true'' \<and>
         parseInt_or (getState s ''target'') 100 \<le> parseInt_or (getState s ''count'') 0 + 1
      then Some ''true'' else getState s ''launched'')"
  by (simp add: click_handler_def Let_def store_defs)

text \<open>
  Handled one after the other, the clicks of any run send the launch message at most
  once, and never once \<open>launched\<close> is \<open>true\<close>.
\<close>

lemma click_seq_launch_once:
  "launch_notes (snd (click_seq reqs s)) \<le> launch_notes s + 1 \<and>
   (getState s ''launched'' = Some ''true'' \<longrightarrow>
      launch_notes (snd (click_seq reqs s)) = launch_notes s)"
proof (induction reqs arbitrary: s)
  case Nil
  show ?case by simp
next
  case (Cons rq reqs)
  obtain now ip where rq: "rq = (now, ip)" by (cases rq)
  obtain r s' where p: "post_click True now ip s = (r, s')" by (cases "post_click True now ip s")
  obtain rs s'' where q: "click_seq reqs s' = (rs, s'')" by (cases "click_seq reqs s'")
  have ih: "launch_notes s'' \<le> launch_notes s' + 1"
    "getState s' ''launched'' = Some ''true'' \<Longrightarrow> launch_notes s'' = launch_notes s'"
    using Cons.IH [of s'] by (simp_all add: q)
  have s': "s' = snd (click_handler now ip s)"
    using p by (simp add: post_click_def)
  have st: "launch_notes s' \<le> launch_notes s + 1"
    "getState s ''launched'' = Some ''true'' \<Longrightarrow> getState s' ''launched'' = Some ''true''"
    "getState s ''launched'' = Some ''true'' \<Longrightarrow> launch_notes s' = launch_notes s"
    "launch_notes s' \<noteq> launch_notes s \<Longrightarrow> getState s' ''launched'' = Some ''true''"
    unfolding s' click_handler_launch_notes click_handler_launched
    by (simp_all split: if_splits)
  have "launch_notes s'' \<le> launch_notes s + 1"
  proof (cases "launch_notes s' = launch_notes s")
    case True
    then show ?thesis using ih(1) by simp
  next
    case False
    then have "launch_notes s'' = launch_notes s'" using st(4) ih(2) by simp
    then show ?thesis using st(1) by simp
  qed
  moreover have "launch_notes s'' = launch_notes s" if "getState s ''launched'' = Some ''true''"
    using that st(2,3) ih(2) by simp
  ultimately show ?case by (simp add: rq p q)
qed

subsection \<open>The state rows stay\<close>

lemma click_keeps_rows:
  "state_tbl s k \<noteq> None \<Longrightarrow> state_tbl (snd (post_click a now ip s)) k \<noteq> None"
  by (simp add: post_click_def click_handler_def Let_def store_defs)

lemma keeps_rows:
  "state_tbl s k \<noteq> None \<Longrightarrow> state_tbl (setState key v s) k \<noteq> None"
  "state_tbl s k \<noteq> None \<Longrightarrow> state_tbl (addLog now ev de s) k \<noteq> None"
  "state_tbl s k \<noteq> None \<Longrightarrow> state_tbl (tg m s) k \<noteq> None"
  "state_tbl s k \<noteq> None \<Longrightarrow> state_tbl (s\<lparr>pendingConfirm := p\<rparr>) k \<noteq> None"
  "state_tbl s k \<noteq> None \<Longrightarrow> state_tbl (update_where ks v s) k \<noteq> None"
  "state_tbl s k \<noteq> None \<Longrightarrow> state_tbl (delete_clicks s) k \<noteq> None"
  by (simp_all add: store_defs update_where_def delete_clicks_def)

lemma dispatch_keeps_rows:
  "state_tbl s k \<noteq> None \<Longrightarrow> state_tbl (dispatch now chatId text s) k \<noteq> None"
  unfolding dispatch_def Let_def
  by (assumption | rule keeps_rows conjI impI
      | simp only: if_split [where P = "\<lambda>s'. state_tbl s' k \<noteq> None"])+

lemma handleConfirmed_keeps_rows:
  "state_tbl s k \<noteq> None \<Longrightarrow> state_tbl (handleConfirmed now command s) k \<noteq> None"
  by (cases "command = ''reset''") (simp_all add: handleConfirmed_def Let_def keeps_rows)

lemma confirm_nothing_pending:
  assumes "trim raw = ''CONFIRM''" and "pendingConfirm s admin = None"
  shows "post_webhook admin now (Some (admin, Str raw)) s =
           dispatch now admin ''CONFIRM'' (addLog now ''tg_command'' ''CONFIRM'' s)"
  using assms by (simp add: post_webhook_def webhook_try_def Let_def addLog_def)

lemma webhook_no_text:
  "post_webhook admin now (Some (chatId, NoText)) s = post_webhook admin now (Some (chatId, Str [])) s"
  by (simp add: post_webhook_def webhook_try_def)

lemma webhook_keeps_rows_str:
  assumes "state_tbl s k \<noteq> None"
  shows "state_tbl (post_webhook admin now (Some (chatId, Str raw)) s) k \<noteq> None"
proof -
  note rows = keeps_rows [OF assms] dispatch_keeps_rows handleConfirmed_keeps_rows
  show ?thesis
  proof (cases "chatId = admin")
    case False
    then show ?thesis using assms by (simp add: post_webhook_def webhook_try_def)
  next
    case True
    show ?thesis
    proof (cases "trim raw = ''CONFIRM''")
      case False
      then show ?thesis
        unfolding True operator_command [OF False]
        by (intro rows)
    next
      case confirm: True
      show ?thesis
      proof (cases "pendingConfirm s admin")
        case None
        show ?thesis
          unfolding True confirm_nothing_pending [OF confirm None]
          by (intro rows)
      next
        case (Some ce)
        obtain c e where ce: "ce = (c, e)" by (cases ce)
        have p: "pendingConfirm s admin = Some (c, e)" using Some ce by simp
        show ?thesis
          unfolding True confirm_pending [OF confirm p] Let_def
          by (rule assms keeps_rows handleConfirmed_keeps_rows conjI impI
              | simp only: if_split [where P = "\<lambda>s'. state_tbl s' k \<noteq> None"])+
      qed
    qed
  qed
qed

lemma webhook_keeps_rows:
  assumes "state_tbl s k \<noteq> None"
  shows "state_tbl (post_webhook admin now body s) k \<noteq> None"
proof (cases body)
  case None
  then show ?thesis using assms by (simp add: post_webhook_def webhook_try_def)
next
  case (Some m)
  obtain chatId field where m: "m = (chatId, field)" by (cases m)
  show ?thesis
  proof (cases field)
    case (Str raw)
    show ?thesis unfolding Some m Str by (rule webhook_keeps_rows_str [OF assms])
  next
    case NoText
    show ?thesis unfolding Some m NoText webhook_no_text by (rule webhook_keeps_rows_str [OF assms])
  next
    case NotStr
    show ?thesis using assms by (simp add: Some m NotStr post_webhook_def webhook_try_def tg_def)
  qed
qed

lemma idle_tick_state: "state_tbl (snd (idle_tick ok now s)) = state_tbl s"
  by (simp add: idle_tick_def idle_body_def tg_def)

text \<open>
  The server listens only once \<open>initDB\<close> has run, and no handler removes a row of
  \<open>state\<close>: every server it reaches is bootstrapped.
\<close>

lemma bootstrapped_kept:
  assumes "bootstrapped s"
  shows "bootstrapped (snd (post_click a now ip s))"
    and "bootstrapped (post_webhook admin now body s)"
    and "bootstrapped (snd (idle_tick ok now s))"
  using assms click_keeps_rows webhook_keeps_rows idle_tick_state [of ok now s]
  by (simp_all add: bootstrapped_keys)

end
